theory Spec2Isabelle
  imports Complex_Main "HOL-Library.Sublist"
begin

section \<open>Strings and errors\<close>

text \<open>
  The server is a Node.js program.  JavaScript strings are modelled as \<^typ>\<open>string\<close>,
  an exception as a value of \<open>exn\<close> on the left of a sum.  \<open>Error m\<close> is
  \<^verbatim>\<open>new Error(m)\<close>; \<open>SyntaxError\<close> and \<open>TypeError\<close> are the exceptions of
  \<^verbatim>\<open>JSON.parse\<close> and of a property read on \<^verbatim>\<open>null\<close>.
\<close>

datatype exn = Error string | SyntaxError | TypeError

definition sep :: char where
  \<comment> \<open>\<^verbatim>\<open>path.sep\<close> on a POSIX host\<close>
  "sep = CHR ''/''"

definition startsWith :: "string \<Rightarrow> string \<Rightarrow> bool" where
  \<comment> \<open>\<^verbatim>\<open>s.startsWith(p)\<close>\<close>
  "startsWith s p = prefix p s"

section \<open>The \<^verbatim>\<open>path\<close> module (POSIX)\<close>

text \<open>
  The functions of Node's \<^verbatim>\<open>path\<close> module that the server calls, on a POSIX host
  (separator \<^verbatim>\<open>/\<close>).  A path is cut at its separators; \<open>normalizeString\<close> walks the
  segments with a stack: an empty segment and \<^verbatim>\<open>.\<close> are skipped, \<^verbatim>\<open>..\<close> removes the
  segment on top, or is dropped at the root of an absolute path, or is kept in front of a
  relative one.
\<close>

fun split_sep :: "string \<Rightarrow> string list" where
  "split_sep [] = [[]]"
| "split_sep (c # cs) =
     (if c = sep then [] # split_sep cs
      else (case split_sep cs of [] \<Rightarrow> [[c]] | s # ss \<Rightarrow> (c # s) # ss))"

fun join_sep :: "string list \<Rightarrow> string" where
  "join_sep [] = []"
| "join_sep [s] = s"
| "join_sep (s # t # ss) = s @ sep # join_sep (t # ss)"

definition norm_step :: "bool \<Rightarrow> string list \<Rightarrow> string \<Rightarrow> string list" where
  \<comment> \<open>one segment of \<open>normalizeString\<close>; the stack has its top first\<close>
  "norm_step allowAboveRoot st seg =
     (if seg = [] \<or> seg = ''.'' then st
      else if seg = ''..'' then
        (case st of
           [] \<Rightarrow> if allowAboveRoot then [''..''] else []
         | t # ts \<Rightarrow>
             if t = ''..'' then (if allowAboveRoot then ''..'' # st else st) else ts)
      else seg # st)"

definition normalizeString :: "string \<Rightarrow> bool \<Rightarrow> string" where
  "normalizeString p allowAboveRoot =
     join_sep (rev (foldl (norm_step allowAboveRoot) [] (split_sep p)))"

fun resolve_loop :: "string list \<Rightarrow> string \<Rightarrow> string \<times> bool" where
  \<comment> \<open>the loop of \<^verbatim>\<open>path.resolve\<close>: arguments from the right, the working directory
      last, until an absolute one is met; empty arguments are skipped\<close>
  "resolve_loop [] resolvedPath = (resolvedPath, False)"
| "resolve_loop (p # ps) resolvedPath =
     (if p = [] then resolve_loop ps resolvedPath
      else if hd p = sep then (p @ sep # resolvedPath, True)
      else resolve_loop ps (p @ sep # resolvedPath))"

definition path_resolve :: "string \<Rightarrow> string list \<Rightarrow> string" where
  \<comment> \<open>\<^verbatim>\<open>path.resolve(...args)\<close> in a process whose working directory is \<open>cwd\<close>\<close>
  "path_resolve cwd args =
     (case resolve_loop (rev args @ [cwd]) [] of
        (resolvedPath, resolvedAbsolute) \<Rightarrow>
          (let n = normalizeString resolvedPath (\<not> resolvedAbsolute)
           in if resolvedAbsolute then sep # n else if n \<noteq> [] then n else ''.''))"

definition path_normalize :: "string \<Rightarrow> string" where
  \<comment> \<open>\<^verbatim>\<open>path.normalize(p)\<close>\<close>
  "path_normalize p =
     (if p = [] then ''.''
      else
        (let isAbsolute = (hd p = sep);
             trailingSeparator = (last p = sep);
             n = normalizeString p (\<not> isAbsolute)
         in if n = [] then (if isAbsolute then [sep] else if trailingSeparator then ''./'' else ''.'')
            else (let n' = (if trailingSeparator then n @ [sep] else n)
                  in if isAbsolute then sep # n' else n')))"

definition path_join :: "string list \<Rightarrow> string" where
  \<comment> \<open>\<^verbatim>\<open>path.join(...args)\<close>\<close>
  "path_join args =
     (case filter (\<lambda>a. a \<noteq> []) args of
        [] \<Rightarrow> ''.''
      | as \<Rightarrow> path_normalize (join_sep as))"

definition path_basename :: "string \<Rightarrow> string" where
  \<comment> \<open>\<^verbatim>\<open>path.basename(p)\<close>: trailing separators are ignored, then the part after the
      last separator\<close>
  "path_basename p =
     rev (takeWhile (\<lambda>c. c \<noteq> sep) (dropWhile (\<lambda>c. c = sep) (rev p)))"

definition segments :: "string \<Rightarrow> string list" where
  "segments p = filter (\<lambda>s. s \<noteq> []) (split_sep p)"

fun drop_common :: "string list \<Rightarrow> string list \<Rightarrow> string list \<times> string list" where
  "drop_common (x # xs) (y # ys) =
     (if x = y then drop_common xs ys else (x # xs, y # ys))"
| "drop_common xs ys = (xs, ys)"

definition path_relative :: "string \<Rightarrow> string \<Rightarrow> string \<Rightarrow> string" where
  \<comment> \<open>\<^verbatim>\<open>path.relative(from, to)\<close>: both are resolved, their common leading segments
      dropped, and the way is one \<^verbatim>\<open>..\<close> for each segment left of \<open>from\<close>, then the
      segments left of \<open>to\<close>\<close>
  "path_relative cwd from to =
     (if from = to then []
      else
        (let f = path_resolve cwd [from]; t = path_resolve cwd [to]
         in if f = t then []
            else (case drop_common (segments f) (segments t) of
                    (fs, ts) \<Rightarrow> join_sep (map (\<lambda>_. ''..'') fs @ ts))))"

section \<open>Path safety helpers\<close>

text \<open>
  \<open>WORKSPACE_ROOT\<close> and the working directory of the process are parameters.  A
  caller passes a field of the query string or of the request body: \<open>None\<close> is
  \<^verbatim>\<open>undefined\<close>, \<open>Some s\<close> the string \<open>s\<close>.
\<close>

definition or_default :: "string option \<Rightarrow> string \<Rightarrow> string" where
  \<comment> \<open>\<^verbatim>\<open>v || d\<close> on a string or \<^verbatim>\<open>undefined\<close>: the empty string is falsy\<close>
  "or_default v d = (case v of None \<Rightarrow> d | Some s \<Rightarrow> if s = [] then d else s)"

definition resolveSafe :: "string \<Rightarrow> string \<Rightarrow> string option \<Rightarrow> exn + string" where
  \<comment> \<open>single-workspace revision: \<^verbatim>\<open>function resolveSafe(rel = '.')\<close>\<close>
  "resolveSafe cwd WORKSPACE_ROOT rel =
     (let sanitizedRel = dropWhile (\<lambda>c. c = sep) (or_default rel ''.'');
          resolved = path_resolve cwd [WORKSPACE_ROOT, sanitizedRel];
          rootNormalized = path_resolve cwd [WORKSPACE_ROOT] @ [sep];
          resolvedNormalized = resolved @ (if resolved \<noteq> [] \<and> last resolved = sep then [] else [])
      in if \<not> startsWith resolvedNormalized rootNormalized
            \<and> resolved \<noteq> path_resolve cwd [WORKSPACE_ROOT]
         then Inl (Error ''Path outside workspace root is not allowed'')
         else Inr resolved)"

definition toRel :: "string \<Rightarrow> string \<Rightarrow> string \<Rightarrow> string" where
  \<comment> \<open>\<^verbatim>\<open>replaceAll(path.sep, '/')\<close> replaces each separator by itself on POSIX\<close>
  "toRel cwd WORKSPACE_ROOT absPath =
     (let rel = path_relative cwd WORKSPACE_ROOT absPath
      in if rel = [] then ''.'' else map (\<lambda>c. if c = sep then CHR ''/'' else c) rel)"

definition resolveWorkspacePath ::
  "string \<Rightarrow> string \<Rightarrow> string option \<Rightarrow> string option \<Rightarrow> exn + string \<times> string" where
  \<comment> \<open>project-scoped revision: \<^verbatim>\<open>function resolveWorkspacePath(project, rel = '.')\<close>;
      the result is \<open>(projectRoot, resolved)\<close>\<close>
  "resolveWorkspacePath cwd WORKSPACE_ROOT project rel =
     (if or_default project [] = [] then Inl (Error ''project name required'')
      else
        (let sanitizedProject = path_basename (or_default project []);
             projectRoot = path_resolve cwd [WORKSPACE_ROOT, sanitizedProject];
             resolved = path_resolve cwd [projectRoot, or_default rel ''.'']
         in if \<not> startsWith resolved projectRoot
            then Inl (Error ''Invalid path (outside project)'')
            else Inr (projectRoot, resolved)))"

section \<open>Canonical paths\<close>

definition isAbsolute :: "string \<Rightarrow> bool" where
  \<comment> \<open>\<^verbatim>\<open>path.isAbsolute(p)\<close>; \<^verbatim>\<open>process.cwd()\<close> always is\<close>
  "isAbsolute p = (p \<noteq> [] \<and> hd p = sep)"

definition normal_seg :: "string \<Rightarrow> bool" where
  \<comment> \<open>a segment that \<open>normalizeString\<close> keeps as it is\<close>
  "normal_seg s = (s \<noteq> [] \<and> s \<noteq> ''.'' \<and> s \<noteq> ''..'' \<and> sep \<notin> set s)"

definition resolved_segments :: "string \<Rightarrow> string list \<Rightarrow> string list" where
  \<comment> \<open>the segments of \<open>path_resolve cwd args\<close> when the result is absolute\<close>
  "resolved_segments cwd args =
     rev (foldl (norm_step False) [] (split_sep (fst (resolve_loop (rev args @ [cwd]) []))))"

section \<open>JavaScript values and \<^verbatim>\<open>JSON.parse\<close>\<close>

text \<open>
  The values that \<^verbatim>\<open>JSON.parse\<close> returns, and \<^verbatim>\<open>undefined\<close> for a property that is
  not there.  A Number is a finite value, an infinity or \<^verbatim>\<open>NaN\<close>.  An object is the list
  of its members in source order; of two members with one key the later one is read.
\<close>

datatype jsnum = Finite rat | PosInfinity | NegInfinity | NaN

datatype jsval =
    JUndefined
  | JNull
  | JBool bool
  | JNum jsnum
  | JStr string
  | JArr "jsval list"
  | JObj "(string \<times> jsval) list"

fun truthy :: "jsval \<Rightarrow> bool" where
  \<comment> \<open>\<^verbatim>\<open>ToBoolean\<close>\<close>
  "truthy JUndefined = False"
| "truthy JNull = False"
| "truthy (JBool b) = b"
| "truthy (JNum n) = (n \<noteq> Finite 0 \<and> n \<noteq> NaN)"
| "truthy (JStr s) = (s \<noteq> [])"
| "truthy (JArr _) = True"
| "truthy (JObj _) = True"

definition js_or :: "jsval \<Rightarrow> jsval \<Rightarrow> jsval" where
  \<comment> \<open>\<^verbatim>\<open>a || b\<close>\<close>
  "js_or a b = (if truthy a then a else b)"

fun get_prop :: "jsval \<Rightarrow> string \<Rightarrow> exn + jsval" where
  \<comment> \<open>\<^verbatim>\<open>v.k\<close> for the keys the server reads (\<^verbatim>\<open>type\<close>, \<^verbatim>\<open>cols\<close>, \<^verbatim>\<open>rows\<close>), which no
      prototype defines: a \<open>TypeError\<close> on \<^verbatim>\<open>null\<close> and \<^verbatim>\<open>undefined\<close>, the member of an
      object, \<^verbatim>\<open>undefined\<close> on every other value\<close>
  "get_prop JUndefined k = Inl TypeError"
| "get_prop JNull k = Inl TypeError"
| "get_prop (JObj ms) k = Inr (case map_of (rev ms) k of None \<Rightarrow> JUndefined | Some v \<Rightarrow> v)"
| "get_prop v k = Inr JUndefined"

subsection \<open>A reference parser for JSON text\<close>

text \<open>
  The message handlers take \<^verbatim>\<open>JSON.parse\<close> from the environment, so what is proved of
  them holds for every parser.  \<open>json_parse\<close> is an executable parser of the JSON
  grammar, used to run the handlers on concrete frames.  A number literal is rounded to
  the nearest binary64, ties to even, as \<^verbatim>\<open>JSON.parse\<close> does; the two zeros are not
  told apart.  The alphabet of \<^typ>\<open>string\<close> ends at code unit 255: a \<^verbatim>\<open>\u\<close> escape
  above it has no value here and is rejected, so the parser is that of JSON text whose
  strings stay within this alphabet.
\<close>

datatype token =
    TLBrace | TRBrace | TLBracket | TRBracket | TComma | TColon
  | TString string | TNumber rat | TTrue | TFalse | TNull

datatype lex_mode =
    LStart
  | LString string
  | LEscape string
  | LHex string string
  | LNumber string
  | LLiteral string token

definition is_ws :: "char \<Rightarrow> bool" where
  "is_ws c = (c = CHR '' '' \<or> c = CHR 0x09 \<or> c = CHR 0x0A \<or> c = CHR 0x0D)"

fun index_of :: "char \<Rightarrow> string \<Rightarrow> nat option" where
  \<comment> \<open>\<^verbatim>\<open>s.indexOf(c)\<close>, with \<open>None\<close> for \<^verbatim>\<open>-1\<close>\<close>
  "index_of c [] = None"
| "index_of c (x # xs) = (if c = x then Some 0 else map_option Suc (index_of c xs))"

definition digit_val :: "char \<Rightarrow> nat option" where
  "digit_val c = index_of c ''0123456789''"

definition hex_val :: "char \<Rightarrow> nat option" where
  "hex_val c =
     (case index_of c ''0123456789abcdef'' of
        Some d \<Rightarrow> Some d
      | None \<Rightarrow> map_option (\<lambda>d. d + 10) (index_of c ''ABCDEF''))"

definition is_digit :: "char \<Rightarrow> bool" where
  "is_digit c = (digit_val c \<noteq> None)"

definition digits_val :: "string \<Rightarrow> nat" where
  "digits_val ds = foldl (\<lambda>n c. 10 * n + (case digit_val c of None \<Rightarrow> 0 | Some d \<Rightarrow> d)) 0 ds"

definition hex_digits_val :: "string \<Rightarrow> nat" where
  "hex_digits_val ds = foldl (\<lambda>n c. 16 * n + (case hex_val c of None \<Rightarrow> 0 | Some d \<Rightarrow> d)) 0 ds"

definition unescape :: "char \<Rightarrow> char option" where
  "unescape c =
     (if c = CHR 0x22 then Some (CHR 0x22)
      else if c = CHR 0x5C then Some (CHR 0x5C)
      else if c = CHR ''/'' then Some (CHR ''/'')
      else if c = CHR ''b'' then Some (CHR 0x08)
      else if c = CHR ''f'' then Some (CHR 0x0C)
      else if c = CHR ''n'' then Some (CHR 0x0A)
      else if c = CHR ''r'' then Some (CHR 0x0D)
      else if c = CHR ''t'' then Some (CHR 0x09)
      else None)"

definition scale10 :: "int \<Rightarrow> int \<Rightarrow> rat" where
  "scale10 m e = (if 0 \<le> e then of_int m * 10 ^ nat e else of_int m / 10 ^ nat (- e))"

definition number_value :: "string \<Rightarrow> rat option" where
  \<comment> \<open>\<^verbatim>\<open>-? (0 | [1-9][0-9]*) (. [0-9]+)? ([eE] [+-]? [0-9]+)?\<close>\<close>
  "number_value cs =
     (let neg = (cs \<noteq> [] \<and> hd cs = CHR ''-'');
          r1 = (if neg then tl cs else cs);
          ip = takeWhile is_digit r1;
          r2 = dropWhile is_digit r1;
          has_frac = (r2 \<noteq> [] \<and> hd r2 = CHR ''.'');
          fp = (if has_frac then takeWhile is_digit (tl r2) else []);
          r3 = (if has_frac then dropWhile is_digit (tl r2) else r2);
          has_exp = (r3 \<noteq> [] \<and> (hd r3 = CHR ''e'' \<or> hd r3 = CHR ''E''));
          r4 = (if has_exp then tl r3 else r3);
          eneg = (has_exp \<and> r4 \<noteq> [] \<and> hd r4 = CHR ''-'');
          r5 = (if has_exp \<and> r4 \<noteq> [] \<and> (hd r4 = CHR ''-'' \<or> hd r4 = CHR ''+'') then tl r4 else r4);
          ep = (if has_exp then takeWhile is_digit r5 else []);
          r6 = (if has_exp then dropWhile is_digit r5 else r5)
      in if ip = [] \<or> (hd ip = CHR ''0'' \<and> tl ip \<noteq> []) \<or> (has_frac \<and> fp = [])
            \<or> (has_exp \<and> ep = []) \<or> r6 \<noteq> []
         then None
         else
           (let m = int (digits_val (ip @ fp));
                e = (if eneg then - int (digits_val ep) else int (digits_val ep)) - int (length fp)
            in Some (scale10 (if neg then - m else m) e)))"

definition is_number_char :: "char \<Rightarrow> bool" where
  "is_number_char c =
     (is_digit c \<or> c = CHR ''-'' \<or> c = CHR ''+'' \<or> c = CHR ''.'' \<or> c = CHR ''e'' \<or> c = CHR ''E'')"

definition lex_start :: "char \<Rightarrow> (token list \<times> lex_mode) option" where
  \<comment> \<open>the first character of a token: the tokens it completes and the mode it opens\<close>
  "lex_start c =
     (if is_ws c then Some ([], LStart)
      else if c = CHR ''{'' then Some ([TLBrace], LStart)
      else if c = CHR ''}'' then Some ([TRBrace], LStart)
      else if c = CHR ''['' then Some ([TLBracket], LStart)
      else if c = CHR '']'' then Some ([TRBracket], LStart)
      else if c = CHR '','' then Some ([TComma], LStart)
      else if c = CHR '':'' then Some ([TColon], LStart)
      else if c = CHR 0x22 then Some ([], LString [])
      else if c = CHR ''-'' \<or> is_digit c then Some ([], LNumber [c])
      else if c = CHR ''t'' then Some ([], LLiteral ''rue'' TTrue)
      else if c = CHR ''f'' then Some ([], LLiteral ''alse'' TFalse)
      else if c = CHR ''n'' then Some ([], LLiteral ''ull'' TNull)
      else None)"

fun lexer :: "lex_mode \<Rightarrow> string \<Rightarrow> token list option" where
  "lexer LStart [] = Some []"
| "lexer (LNumber acc) [] = map_option (\<lambda>q. [TNumber q]) (number_value (rev acc))"
| "lexer m [] = None"
| "lexer LStart (c # cs) =
     (case lex_start c of
        None \<Rightarrow> None
      | Some (ts, m) \<Rightarrow> map_option ((@) ts) (lexer m cs))"
| "lexer (LString acc) (c # cs) =
     (if c = CHR 0x22 then map_option ((#) (TString (rev acc))) (lexer LStart cs)
      else if c = CHR 0x5C then lexer (LEscape acc) cs
      else if (of_char c :: nat) < 32 then None
      else lexer (LString (c # acc)) cs)"
| "lexer (LEscape acc) (c # cs) =
     (if c = CHR ''u'' then lexer (LHex acc []) cs
      else (case unescape c of
              None \<Rightarrow> None
            | Some e \<Rightarrow> lexer (LString (e # acc)) cs))"
| "lexer (LHex acc hs) (c # cs) =
     (if hex_val c = None then None
      else if length hs < 3 then lexer (LHex acc (c # hs)) cs
      else (let n = hex_digits_val (rev (c # hs))
            in if n < 256 then lexer (LString (char_of n # acc)) cs else None))"
| "lexer (LNumber acc) (c # cs) =
     (if is_number_char c then lexer (LNumber (c # acc)) cs
      else (case (number_value (rev acc), lex_start c) of
              (Some q, Some (ts, m)) \<Rightarrow> map_option ((@) (TNumber q # ts)) (lexer m cs)
            | _ \<Rightarrow> None))"
| "lexer (LLiteral expected t) (c # cs) =
     (case expected of
        [] \<Rightarrow> None
      | e # es \<Rightarrow>
          if c \<noteq> e then None
          else if es = [] then map_option ((#) t) (lexer LStart cs)
          else lexer (LLiteral es t) cs)"

fun bit_length :: "nat \<Rightarrow> nat" where
  "bit_length n = (if n = 0 then 0 else Suc (bit_length (n div 2)))"

definition pow2 :: "int \<Rightarrow> rat" where
  "pow2 k = (if 0 \<le> k then 2 ^ nat k else 1 / 2 ^ nat (- k))"

definition floor_log2 :: "rat \<Rightarrow> int" where
  \<comment> \<open>for \<open>0 < a\<close>, the \<open>k\<close> with \<open>pow2 k \<le> a < pow2 (k + 1)\<close>\<close>
  "floor_log2 a =
     (case quotient_of a of
        (p, d) \<Rightarrow>
          (let k = int (bit_length (nat p)) - int (bit_length (nat d))
           in if pow2 k \<le> a then k else k - 1))"

definition round_half_even :: "rat \<Rightarrow> int" where
  "round_half_even x =
     (let f = \<lfloor>x\<rfloor>; d = x - of_int f
      in if d < 1 / 2 then f else if 1 / 2 < d then f + 1 else if even f then f else f + 1)"

definition to_binary64 :: "rat \<Rightarrow> jsnum" where
  \<comment> \<open>the Number value of a real: 53 bits of precision, exponents from -1022 (below
      which the spacing stays that of the subnormals) to 1023, an infinity beyond\<close>
  "to_binary64 q =
     (if q = 0 then Finite 0
      else
        (let a = \<bar>q\<bar>;
             e = max (floor_log2 a) (- 1022);
             u = pow2 (e - 52);
             r = of_int (round_half_even (a / u)) * u
         in if pow2 1024 \<le> r then (if 0 < q then PosInfinity else NegInfinity)
            else Finite (if 0 < q then r else - r)))"

datatype frame = FArr "jsval list" | FObj "(string \<times> jsval) list" string

datatype pstate =
    PValue "frame list"
  | PArrStart "frame list"
  | PArrNext "jsval list" "frame list"
  | PObjStart "frame list"
  | PObjNext "(string \<times> jsval) list" "frame list"
  | PKey "(string \<times> jsval) list" "frame list"
  | PColon "(string \<times> jsval) list" string "frame list"
  | PDone jsval

fun push_value :: "jsval \<Rightarrow> frame list \<Rightarrow> pstate" where
  \<comment> \<open>a value is complete: it is the result, or goes into the container being built\<close>
  "push_value v [] = PDone v"
| "push_value v (FArr es # st) = PArrNext (v # es) st"
| "push_value v (FObj ms k # st) = PObjNext ((k, v) # ms) st"

fun value_step :: "frame list \<Rightarrow> token \<Rightarrow> pstate option" where
  "value_step st TLBrace = Some (PObjStart st)"
| "value_step st TLBracket = Some (PArrStart st)"
| "value_step st (TString s) = Some (push_value (JStr s) st)"
| "value_step st (TNumber q) = Some (push_value (JNum (to_binary64 q)) st)"
| "value_step st TTrue = Some (push_value (JBool True) st)"
| "value_step st TFalse = Some (push_value (JBool False) st)"
| "value_step st TNull = Some (push_value JNull st)"
| "value_step st t = None"

fun pstep :: "pstate \<Rightarrow> token \<Rightarrow> pstate option" where
  "pstep (PValue st) t = value_step st t"
| "pstep (PArrStart st) t =
     (if t = TRBracket then Some (push_value (JArr []) st) else value_step (FArr [] # st) t)"
| "pstep (PArrNext es st) t =
     (if t = TComma then Some (PValue (FArr es # st))
      else if t = TRBracket then Some (push_value (JArr (rev es)) st)
      else None)"
| "pstep (PObjStart st) t =
     (case t of
        TRBrace \<Rightarrow> Some (push_value (JObj []) st)
      | TString k \<Rightarrow> Some (PColon [] k st)
      | _ \<Rightarrow> None)"
| "pstep (PObjNext ms st) t =
     (if t = TComma then Some (PKey ms st)
      else if t = TRBrace then Some (push_value (JObj (rev ms)) st)
      else None)"
| "pstep (PKey ms st) t = (case t of TString k \<Rightarrow> Some (PColon ms k st) | _ \<Rightarrow> None)"
| "pstep (PColon ms k st) t = (if t = TColon then Some (PValue (FObj ms k # st)) else None)"
| "pstep (PDone v) t = None"

fun parse_tokens :: "pstate \<Rightarrow> token list \<Rightarrow> jsval option" where
  "parse_tokens (PDone v) [] = Some v"
| "parse_tokens s [] = None"
| "parse_tokens s (t # ts) = (case pstep s t of None \<Rightarrow> None | Some s' \<Rightarrow> parse_tokens s' ts)"

definition json_parse :: "string \<Rightarrow> exn + jsval" where
  "json_parse s =
     (case lexer LStart s of
        None \<Rightarrow> Inl SyntaxError
      | Some ts \<Rightarrow> (case parse_tokens (PValue []) ts of None \<Rightarrow> Inl SyntaxError | Some v \<Rightarrow> Inr v))"

section \<open>The environment of the server\<close>

text \<open>
  What the server takes from outside its own code: the process (\<open>WORKSPACE_ROOT\<close>, the
  working directory, the platform and \<^verbatim>\<open>process.env.SHELL\<close>), the file system
  (\<^verbatim>\<open>fs.existsSync\<close>), \<^verbatim>\<open>JSON.parse\<close>, and whether \<^verbatim>\<open>pty.spawn\<close> and
  \<^verbatim>\<open>ptyProcess.resize\<close> throw.  The later revisions also wrap \<^verbatim>\<open>ws.send\<close> and
  \<^verbatim>\<open>ptyProcess.kill\<close> in \<^verbatim>\<open>try\<close> blocks, but these two calls do not throw: the server
  imports the named export \<^verbatim>\<open>WebSocketServer\<close>, which \<^verbatim>\<open>ws\<close> has from version 8 on,
  where \<^verbatim>\<open>send\<close> without a callback returns silently on a connection that is closing
  or closed; and \<^verbatim>\<open>kill\<close> of \<^verbatim>\<open>node-pty\<close> catches the error of \<^verbatim>\<open>process.kill\<close> itself.
\<close>

record env =
  env_root :: string
  env_cwd :: string
  env_platform :: string
  env_SHELL :: "string option"
  fs_existsSync :: "string \<Rightarrow> bool"
  JSON_parse :: "string \<Rightarrow> exn + jsval"
  pty_spawn_throws :: bool
  pty_resize_throws :: "jsval \<Rightarrow> jsval \<Rightarrow> bool"

subsection \<open>The connection\<close>

record ws =
  ws_open :: bool
  ws_sent :: "string list"

definition ws_send :: "ws \<Rightarrow> string \<Rightarrow> exn + ws" where
  \<comment> \<open>\<^verbatim>\<open>ws.send(data)\<close> on a connection that the \<^verbatim>\<open>connection\<close> event has handed
      over: a frame while it is open; once it is closing or closed nothing is sent and
      the call returns\<close>
  "ws_send w d =
     (if ws_open w then Inr (w\<lparr>ws_sent := ws_sent w @ [d]\<rparr>) else Inr w)"

definition ws_close :: "ws \<Rightarrow> ws" where
  \<comment> \<open>\<^verbatim>\<open>ws.close()\<close>\<close>
  "ws_close w = w\<lparr>ws_open := False\<rparr>"

subsection \<open>The pseudo-terminal process\<close>

record spawn_options =
  opt_name :: string
  opt_cols :: nat
  opt_rows :: nat
  opt_cwd :: string

record pty =
  pty_file :: string
  pty_options :: spawn_options
  pty_dims :: "jsval \<times> jsval"
  pty_input :: "string list"
  pty_signals :: nat
  pty_exited :: bool

definition pty_spawn :: "env \<Rightarrow> string \<Rightarrow> spawn_options \<Rightarrow> exn + pty" where
  \<comment> \<open>\<^verbatim>\<open>pty.spawn(file, [], options)\<close>\<close>
  "pty_spawn E file options =
     (if pty_spawn_throws E then Inl (Error ''spawn failed'')
      else Inr \<lparr>pty_file = file, pty_options = options,
                pty_dims = (JNum (Finite (of_nat (opt_cols options))),
                            JNum (Finite (of_nat (opt_rows options)))),
                pty_input = [], pty_signals = 0, pty_exited = False\<rparr>)"

definition pty_write :: "pty \<Rightarrow> string \<Rightarrow> pty" where
  \<comment> \<open>\<^verbatim>\<open>ptyProcess.write(data)\<close>\<close>
  "pty_write p d = p\<lparr>pty_input := pty_input p @ [d]\<rparr>"

definition pty_resize :: "env \<Rightarrow> pty \<Rightarrow> jsval \<Rightarrow> jsval \<Rightarrow> exn + pty" where
  \<comment> \<open>\<^verbatim>\<open>ptyProcess.resize(cols, rows)\<close>\<close>
  "pty_resize E p c r =
     (if pty_resize_throws E c r then Inl (Error ''resize failed'')
      else Inr (p\<lparr>pty_dims := (c, r)\<rparr>))"

definition pty_kill :: "pty \<Rightarrow> exn + pty" where
  \<comment> \<open>\<^verbatim>\<open>ptyProcess.kill()\<close>: one termination signal; the call returns\<close>
  "pty_kill p = Inr (p\<lparr>pty_signals := pty_signals p + 1\<rparr>)"

definition shell :: "env \<Rightarrow> string" where
  \<comment> \<open>\<^verbatim>\<open>os.platform() === 'win32' ? 'powershell.exe' : (process.env.SHELL || 'bash')\<close>\<close>
  "shell E = (if env_platform E = ''win32'' then ''powershell.exe''
              else or_default (env_SHELL E) ''bash'')"

section \<open>The terminal bridge\<close>

text \<open>
  The repository holds three revisions of the server: \<^verbatim>\<open>server.js\<close>, the
  single-workspace revision and the project-scoped revision.  A session is the pair of
  a connection and the process spawned for it.  A handler returns \<open>Inl e\<close> when the
  exception \<open>e\<close> leaves it uncaught.  The handlers of the two later revisions are the
  same code.
\<close>

datatype revision = ServerJs | SingleWorkspace | ProjectScoped

type_synonym session = "ws \<times> pty"

subsection \<open>\<^verbatim>\<open>server.js\<close>\<close>

definition pty_onData_server :: "env \<Rightarrow> session \<Rightarrow> string \<Rightarrow> exn + session" where
  \<comment> \<open>\<^verbatim>\<open>ptyProcess.onData(data => ws.send(data))\<close>\<close>
  "pty_onData_server E s d =
     (case s of (w, p) \<Rightarrow>
        (case ws_send w d of Inl e \<Rightarrow> Inl e | Inr w' \<Rightarrow> Inr (w', p)))"

definition ws_on_message_server :: "env \<Rightarrow> session \<Rightarrow> string \<Rightarrow> exn + session" where
  \<comment> \<open>the \<^verbatim>\<open>try\<close> block parses and resizes; only the \<^verbatim>\<open>catch\<close> block writes\<close>
  "ws_on_message_server E s msg =
     (case s of (w, p) \<Rightarrow>
        (let attempt =
               (case JSON_parse E msg of
                  Inl e \<Rightarrow> Inl e
                | Inr data \<Rightarrow>
                    (case get_prop data ''type'' of
                       Inl e \<Rightarrow> Inl e
                     | Inr t \<Rightarrow>
                         if t = JStr ''resize'' then
                           (case get_prop data ''cols'' of
                              Inl e \<Rightarrow> Inl e
                            | Inr c \<Rightarrow>
                                (case get_prop data ''rows'' of
                                   Inl e \<Rightarrow> Inl e
                                 | Inr r \<Rightarrow> pty_resize E p c r))
                         else Inr p))
         in case attempt of
              Inl e \<Rightarrow> Inr (w, pty_write p msg)
            | Inr p' \<Rightarrow> Inr (w, p')))"

definition ws_on_close_server :: "env \<Rightarrow> session \<Rightarrow> exn + session" where
  \<comment> \<open>\<^verbatim>\<open>ptyProcess.kill()\<close>, outside any \<^verbatim>\<open>try\<close> block\<close>
  "ws_on_close_server E s =
     (case s of (w, p) \<Rightarrow>
        (case pty_kill p of Inl e \<Rightarrow> Inl e | Inr p' \<Rightarrow> Inr (w, p')))"

definition wss_on_connection_server ::
  "env \<Rightarrow> ws \<Rightarrow> (string \<Rightarrow> string option) \<Rightarrow> exn + ws \<times> pty option" where
  \<comment> \<open>\<open>query\<close> is \<^verbatim>\<open>urlObj.searchParams.get\<close>; the result is the connection and the
      process spawned for it, if one was\<close>
  "wss_on_connection_server E w query =
     (let project = or_default (query ''project'') ''default'';
          resolved = path_join [env_root E, path_basename project]
      in if \<not> fs_existsSync E resolved then
           (case ws_send w (''Project '' @ [CHR 0x27] @ project @ [CHR 0x27] @ '' not found.'') of
              Inl e \<Rightarrow> Inl e
            | Inr w' \<Rightarrow> Inr (ws_close w', None))
         else
           (case pty_spawn E (shell E)
                   \<lparr>opt_name = ''xterm-color'', opt_cols = 80, opt_rows = 24, opt_cwd = resolved\<rparr> of
              Inl e \<Rightarrow> Inl e
            | Inr p \<Rightarrow> Inr (w, Some p)))"

subsection \<open>The later revisions\<close>

definition pty_onData :: "env \<Rightarrow> session \<Rightarrow> string \<Rightarrow> exn + session" where
  \<comment> \<open>\<^verbatim>\<open>try { ws.send(data); } catch {}\<close>\<close>
  "pty_onData E s d =
     (case s of (w, p) \<Rightarrow>
        (case ws_send w d of Inl e \<Rightarrow> Inr (w, p) | Inr w' \<Rightarrow> Inr (w', p)))"

definition ws_on_message :: "env \<Rightarrow> session \<Rightarrow> string \<Rightarrow> exn + session" where
  \<comment> \<open>in \<open>attempt\<close>, \<open>Inr (Some p')\<close> is the \<^verbatim>\<open>return\<close> after the resize, \<open>Inr None\<close>
      the end of the \<^verbatim>\<open>try\<close> block, \<open>Inl e\<close> an exception, which the empty
      \<^verbatim>\<open>catch\<close> block drops; the write follows the last two\<close>
  "ws_on_message E s msg =
     (case s of (w, p) \<Rightarrow>
        (let attempt =
               (case JSON_parse E msg of
                  Inl e \<Rightarrow> Inl e
                | Inr parsed \<Rightarrow>
                    if \<not> truthy parsed then Inr None
                    else
                      (case get_prop parsed ''type'' of
                         Inl e \<Rightarrow> Inl e
                       | Inr t \<Rightarrow>
                           if t = JStr ''resize'' then
                             (case get_prop parsed ''cols'' of
                                Inl e \<Rightarrow> Inl e
                              | Inr c \<Rightarrow>
                                  (case get_prop parsed ''rows'' of
                                     Inl e \<Rightarrow> Inl e
                                   | Inr r \<Rightarrow>
                                       (case pty_resize E p (js_or c (JNum (Finite 80)))
                                               (js_or r (JNum (Finite 24))) of
                                          Inl e \<Rightarrow> Inl e
                                        | Inr p' \<Rightarrow> Inr (Some p'))))
                           else Inr None))
         in case attempt of
              Inr (Some p') \<Rightarrow> Inr (w, p')
            | _ \<Rightarrow> Inr (w, pty_write p msg)))"

definition ws_on_close :: "env \<Rightarrow> session \<Rightarrow> exn + session" where
  \<comment> \<open>\<^verbatim>\<open>try { ptyProcess.kill(); } catch (e) {}\<close>\<close>
  "ws_on_close E s =
     (case s of (w, p) \<Rightarrow>
        (case pty_kill p of Inl e \<Rightarrow> Inr (w, p) | Inr p' \<Rightarrow> Inr (w, p')))"

definition wss_on_connection_single ::
  "env \<Rightarrow> ws \<Rightarrow> (string \<Rightarrow> string option) \<Rightarrow> exn + ws \<times> pty option" where
  \<comment> \<open>single-workspace revision: the whole handler is one \<^verbatim>\<open>try\<close> block, whose
      \<^verbatim>\<open>catch\<close> block tries to send \<^verbatim>\<open>Server error\<close> and to close\<close>
  "wss_on_connection_single E w query =
     (let relPath = or_default (query ''path'') ''.'';
          attempt =
            (case resolveSafe (env_cwd E) (env_root E) (Some relPath) of
               Inl e \<Rightarrow> Inl e
             | Inr projectDir \<Rightarrow>
                 if \<not> fs_existsSync E projectDir then
                   (case ws_send w (''Path '' @ [CHR 0x27] @ relPath @ [CHR 0x27] @ '' not found.'') of
                      Inl e \<Rightarrow> Inl e
                    | Inr w' \<Rightarrow> Inr (ws_close w', None))
                 else
                   (case pty_spawn E (shell E)
                           \<lparr>opt_name = ''xterm-color'', opt_cols = 80, opt_rows = 24,
                            opt_cwd = projectDir\<rparr> of
                      Inl e \<Rightarrow> Inl e
                    | Inr p \<Rightarrow> Inr (w, Some p)))
      in case attempt of
           Inr r \<Rightarrow> Inr r
         | Inl e \<Rightarrow>
             (case ws_send w ''Server error'' of
                Inl e' \<Rightarrow> Inr (w, None)
              | Inr w' \<Rightarrow> Inr (ws_close w', None)))"

definition wss_on_connection_project ::
  "env \<Rightarrow> ws \<Rightarrow> (string \<Rightarrow> string option) \<Rightarrow> exn + ws \<times> pty option" where
  \<comment> \<open>project-scoped revision\<close>
  "wss_on_connection_project E w query =
     (let project = or_default (query ''project'') ''default'';
          safeProject = path_basename project;
          projectDir = path_join [env_root E, safeProject]
      in if \<not> fs_existsSync E projectDir then
           (case ws_send w (''Project '' @ [CHR 0x27] @ project @ [CHR 0x27] @ '' not found.'') of
              Inl e \<Rightarrow> Inl e
            | Inr w' \<Rightarrow> Inr (ws_close w', None))
         else
           (case pty_spawn E (shell E)
                   \<lparr>opt_name = ''xterm-color'', opt_cols = 80, opt_rows = 24,
                    opt_cwd = projectDir\<rparr> of
              Inl e \<Rightarrow> Inl e
            | Inr p \<Rightarrow> Inr (w, Some p)))"

subsection \<open>Events of a session\<close>

text \<open>
  What can happen to a session after it was opened: the process writes a chunk of
  output, the process exits, a message arrives, the connection closes.  Each revision
  registers a listener for the first, the third and the fourth; none registers one for
  the exit of the process.
\<close>

datatype event = PtyData string | PtyExit | WsMessage string | WsClose

definition on_connection ::
  "revision \<Rightarrow> env \<Rightarrow> ws \<Rightarrow> (string \<Rightarrow> string option) \<Rightarrow> exn + ws \<times> pty option" where
  "on_connection rv E w query =
     (case rv of
        ServerJs \<Rightarrow> wss_on_connection_server E w query
      | SingleWorkspace \<Rightarrow> wss_on_connection_single E w query
      | ProjectScoped \<Rightarrow> wss_on_connection_project E w query)"

definition deliver :: "revision \<Rightarrow> env \<Rightarrow> event \<Rightarrow> session \<Rightarrow> exn + session" where
  "deliver rv E ev s =
     (case ev of
        PtyData d \<Rightarrow> (if rv = ServerJs then pty_onData_server E s d else pty_onData E s d)
      | PtyExit \<Rightarrow> (case s of (w, p) \<Rightarrow> Inr (w, p\<lparr>pty_exited := True\<rparr>))
      | WsMessage m \<Rightarrow>
          (if rv = ServerJs then ws_on_message_server E s m else ws_on_message E s m)
      | WsClose \<Rightarrow>
          (case s of (w, p) \<Rightarrow>
             (if rv = ServerJs then ws_on_close_server E (ws_close w, p)
              else ws_on_close E (ws_close w, p))))"

fun run :: "revision \<Rightarrow> env \<Rightarrow> event list \<Rightarrow> session \<Rightarrow> exn + session" where
  \<comment> \<open>an exception that leaves a listener ends the process\<close>
  "run rv E [] s = Inr s"
| "run rv E (ev # evs) s =
     (case deliver rv E ev s of Inl e \<Rightarrow> Inl e | Inr s' \<Rightarrow> run rv E evs s')"

subsection \<open>The connections the server tracks\<close>

text \<open>
  The server keeps no table of sessions of its own.  It creates the
  \<^verbatim>\<open>WebSocketServer\<close> with the default options of the library, which then tracks the
  live connections in the set \<^verbatim>\<open>wss.clients\<close>: a connection is added before the
  \<^verbatim>\<open>connection\<close> event is emitted, and removed by the library's own \<^verbatim>\<open>close\<close>
  listener, which is registered before the server's and so runs first.  Connections are
  numbered; \<open>conn_state\<close> holds, for each connection, the connection and the process
  that its listeners close over.
\<close>

record server =
  wss_clients :: "nat set"
  conn_state :: "nat \<rightharpoonup> ws \<times> pty option"

definition wss_connection ::
  "revision \<Rightarrow> env \<Rightarrow> nat \<Rightarrow> (string \<Rightarrow> string option) \<Rightarrow> server \<Rightarrow> exn + server" where
  \<comment> \<open>a new connection \<open>k\<close>: tracked, then handed to the acceptor\<close>
  "wss_connection rv E k query S =
     (case on_connection rv E \<lparr>ws_open = True, ws_sent = []\<rparr> query of
        Inl e \<Rightarrow> Inl e
      | Inr r \<Rightarrow>
          Inr (S\<lparr>wss_clients := insert k (wss_clients S),
                 conn_state := (conn_state S)(k \<mapsto> r)\<rparr>))"

definition wss_close :: "revision \<Rightarrow> env \<Rightarrow> nat \<Rightarrow> server \<Rightarrow> exn + server" where
  \<comment> \<open>the \<^verbatim>\<open>close\<close> event of connection \<open>k\<close>: the listener of the library, then the
      one that the acceptor registered, if it registered one\<close>
  "wss_close rv E k S =
     (let clients = wss_clients S - {k}
      in case conn_state S k of
           None \<Rightarrow> Inr (S\<lparr>wss_clients := clients\<rparr>)
         | Some (w, None) \<Rightarrow>
             Inr (S\<lparr>wss_clients := clients,
                    conn_state := (conn_state S)(k \<mapsto> (ws_close w, None))\<rparr>)
         | Some (w, Some p) \<Rightarrow>
             (case deliver rv E WsClose (w, p) of
                Inl e \<Rightarrow> Inl e
              | Inr (w', p') \<Rightarrow>
                  Inr (S\<lparr>wss_clients := clients,
                         conn_state := (conn_state S)(k \<mapsto> (w', Some p'))\<rparr>)))"

subsection \<open>A concrete environment\<close>

fun positive_number :: "jsval \<Rightarrow> bool" where
  "positive_number (JNum (Finite q)) = (0 < q)"
| "positive_number v = False"

definition node_pty_resize_throws :: "jsval \<Rightarrow> jsval \<Rightarrow> bool" where
  \<comment> \<open>\<^verbatim>\<open>resize(cols, rows)\<close> of \<^verbatim>\<open>node-pty\<close> on a running process.  Its JavaScript
      check throws when \<^verbatim>\<open>cols <= 0 || rows <= 0 || isNaN(cols) || isNaN(rows) ||
      cols === Infinity || rows === Infinity\<close>, and the native call throws when an
      argument is not a Number: the call returns for two positive finite numbers only\<close>
  "node_pty_resize_throws c r = (\<not> positive_number c \<or> \<not> positive_number r)"

definition posix_env :: env where
  \<comment> \<open>a Linux host with the workspace root \<^verbatim>\<open>/ws\<close>, holding the directories \<^verbatim>\<open>default\<close>
      and \<^verbatim>\<open>demo\<close>, where processes can be spawned\<close>
  "posix_env =
     \<lparr>env_root = ''/ws'', env_cwd = ''/srv/app'', env_platform = ''linux'',
      env_SHELL = Some ''/bin/bash'',
      fs_existsSync = (\<lambda>p. p \<in> set [''/ws'', ''/ws/default'', ''/ws/demo'']),
      JSON_parse = json_parse,
      pty_spawn_throws = False,
      pty_resize_throws = node_pty_resize_throws\<rparr>"

definition open_ws :: ws where
  \<comment> \<open>a connection as the acceptor receives it\<close>
  "open_ws = \<lparr>ws_open = True, ws_sent = []\<rparr>"

definition demo_pty :: pty where
  \<comment> \<open>the process spawned for \<^verbatim>\<open>/ws/demo\<close>\<close>
  "demo_pty =
     \<lparr>pty_file = ''/bin/bash'',
      pty_options = \<lparr>opt_name = ''xterm-color'', opt_cols = 80, opt_rows = 24, opt_cwd = ''/ws/demo''\<rparr>,
      pty_dims = (JNum (Finite 80), JNum (Finite 24)),
      pty_input = [], pty_signals = 0, pty_exited = False\<rparr>"

definition demo_server :: server where
  \<comment> \<open>a server whose one connection, number 1, has the session above\<close>
  "demo_server =
     \<lparr>wss_clients = {1}, conn_state = [1 \<mapsto> (open_ws, Some demo_pty)]\<rparr>"

definition bad_resize_frame :: string where
  \<comment> \<open>a resize message whose \<^verbatim>\<open>cols\<close> is not a number\<close>
  "bad_resize_frame = ''{\"type\":\"resize\",\"cols\":\"abc\",\"rows\":40}''"

definition bare_resize_frame :: string where
  \<comment> \<open>a resize message without \<^verbatim>\<open>cols\<close> and \<^verbatim>\<open>rows\<close>\<close>
  "bare_resize_frame = ''{\"type\":\"resize\"}''"

definition resize_frame :: string where
  \<comment> \<open>the control message of a client whose window is 120 by 40\<close>
  "resize_frame = ''{\"type\":\"resize\",\"cols\":120,\"rows\":40}''"

section \<open>Facts about splitting, joining and normalising\<close>

lemma split_sep_not_Nil: "split_sep s \<noteq> []"
  by (induction s) (auto split: list.splits)

lemma split_sep_no_sep: "x \<in> set (split_sep s) \<Longrightarrow> sep \<notin> set x"
  by (induction s arbitrary: x) (auto split: list.splits if_splits)

lemma split_sep_append: "split_sep (a @ sep # b) = split_sep a @ split_sep b"
  by (induction a) (auto split: list.splits simp: split_sep_not_Nil)

lemma split_sep_plain: "sep \<notin> set s \<Longrightarrow> split_sep s = [s]"
  by (induction s) auto

lemma split_join:
  "xs \<noteq> [] \<Longrightarrow> \<forall>x\<in>set xs. sep \<notin> set x \<Longrightarrow> split_sep (join_sep xs) = xs"
proof (induction xs rule: join_sep.induct)
  case 1 then show ?case by simp
next
  case (2 s) then show ?case by (simp add: split_sep_plain)
next
  case (3 s t ss)
  then show ?case by (simp add: split_sep_append split_sep_plain)
qed

lemma norm_step_normal:
  "\<forall>x\<in>set st. normal_seg x \<Longrightarrow> sep \<notin> set seg \<Longrightarrow> \<forall>x\<in>set (norm_step False st seg). normal_seg x"
  unfolding norm_step_def
  by (cases st) (simp_all add: normal_seg_def)

lemma foldl_norm_step_normal:
  "\<forall>x\<in>set st. normal_seg x \<Longrightarrow> \<forall>s\<in>set segs. sep \<notin> set s \<Longrightarrow>
   \<forall>x\<in>set (foldl (norm_step False) st segs). normal_seg x"
proof (induction segs arbitrary: st)
  case Nil then show ?case by simp
next
  case (Cons a segs)
  have "\<forall>x\<in>set (norm_step False st a). normal_seg x"
    using Cons.prems by (intro norm_step_normal) simp_all
  then show ?case using Cons by simp
qed

lemma foldl_norm_step_id:
  "\<forall>x\<in>set ns. normal_seg x \<Longrightarrow> foldl (norm_step a) st ns = rev ns @ st"
proof (induction ns arbitrary: st)
  case Nil then show ?case by simp
next
  case (Cons n ns)
  have "norm_step a st n = n # st"
    using Cons.prems by (simp add: norm_step_def normal_seg_def)
  then show ?case using Cons by simp
qed

lemma norm_step_empty: "norm_step a st [] = st"
  by (simp add: norm_step_def)

lemma norm_step_dot: "norm_step a st ''.'' = st"
  by (simp add: norm_step_def)

lemma resolve_loop_acc:
  "resolve_loop ps acc = (fst (resolve_loop ps []) @ acc, snd (resolve_loop ps []))"
proof (induction ps arbitrary: acc)
  case Nil then show ?case by simp
next
  case (Cons p ps)
  show ?case
  proof (cases "p = [] \<or> hd p = sep")
    case True then show ?thesis using Cons[of acc] by auto
  next
    case False
    then show ?thesis
      using Cons[of "p @ sep # acc"] Cons[of "p @ [sep]"] by simp
  qed
qed

lemma resolve_loop_abs:
  "\<exists>p\<in>set ps. isAbsolute p \<Longrightarrow> snd (resolve_loop ps acc)"
  by (induction ps arbitrary: acc) (auto simp: isAbsolute_def)

lemma resolve_loop_ends:
  "snd (resolve_loop ps []) \<Longrightarrow> \<exists>A. fst (resolve_loop ps []) = A @ [sep]"
proof (induction ps)
  case Nil then show ?case by simp
next
  case (Cons p ps)
  show ?case
  proof (cases "p = []")
    case True then show ?thesis using Cons by simp
  next
    case False
    show ?thesis
    proof (cases "hd p = sep")
      case True then show ?thesis using False by simp
    next
      case nabs: False
      have "resolve_loop (p # ps) [] = resolve_loop ps (p @ [sep])"
        using False nabs by simp
      also have "\<dots> = (fst (resolve_loop ps []) @ p @ [sep], snd (resolve_loop ps []))"
        by (rule resolve_loop_acc)
      finally show ?thesis by (metis append.assoc fst_conv)
    qed
  qed
qed

lemma resolved_segments_normal: "\<forall>x\<in>set (resolved_segments cwd args). normal_seg x"
  unfolding resolved_segments_def set_rev
  by (rule foldl_norm_step_normal) (simp_all add: split_sep_no_sep)

lemma path_resolve_abs:
  assumes "isAbsolute cwd"
  shows "path_resolve cwd args = sep # join_sep (resolved_segments cwd args)"
proof -
  have "snd (resolve_loop (rev args @ [cwd]) [])"
    using assms by (intro resolve_loop_abs) simp
  then show ?thesis
    by (cases "resolve_loop (rev args @ [cwd]) []")
       (simp add: path_resolve_def resolved_segments_def normalizeString_def)
qed

lemma foldl_split_trailing:
  "foldl (norm_step a) st (split_sep (A @ [sep])) = foldl (norm_step a) st (split_sep A)"
proof -
  have "split_sep (A @ [sep]) = split_sep A @ [[]]"
    using split_sep_append[of A "[]"] by simp
  then show ?thesis by (simp add: norm_step_empty)
qed

lemma path_resolve_snoc:
  assumes "isAbsolute cwd" "x \<noteq> []" "hd x \<noteq> sep"
  shows "path_resolve cwd (args @ [x]) =
         sep # join_sep (rev (foldl (norm_step False) (rev (resolved_segments cwd args)) (split_sep x)))"
proof -
  let ?ps = "rev args @ [cwd]"
  have abs: "snd (resolve_loop ?ps [])"
    using assms(1) by (intro resolve_loop_abs) simp
  then obtain A where A: "fst (resolve_loop ?ps []) = A @ [sep]"
    using resolve_loop_ends by blast
  have "resolve_loop (rev (args @ [x]) @ [cwd]) [] = resolve_loop ?ps (x @ [sep])"
    using assms(2,3) by simp
  also have "\<dots> = ((A @ [sep]) @ x @ [sep], True)"
    using resolve_loop_acc[of ?ps "x @ [sep]"] A abs by simp
  finally have loop: "resolve_loop (rev (args @ [x]) @ [cwd]) [] = (A @ sep # (x @ [sep]), True)"
    by simp
  have "foldl (norm_step False) [] (split_sep (A @ sep # (x @ [sep])))
      = foldl (norm_step False) (foldl (norm_step False) [] (split_sep A)) (split_sep (x @ [sep]))"
    by (simp add: split_sep_append)
  also have "\<dots> = foldl (norm_step False) (foldl (norm_step False) [] (split_sep (A @ [sep]))) (split_sep x)"
    by (simp add: foldl_split_trailing)
  finally show ?thesis
    using loop A by (simp add: path_resolve_def normalizeString_def resolved_segments_def)
qed

lemma path_resolve_empty_arg:
  "path_resolve cwd (args @ [[]]) = path_resolve cwd args"
  by (simp add: path_resolve_def)

lemma path_resolve_absolute_arg:
  "isAbsolute x \<Longrightarrow> path_resolve cwd (args @ [x]) = path_resolve cwd [x]"
  by (simp add: path_resolve_def isAbsolute_def)

lemma segments_abs:
  assumes "\<forall>x\<in>set ns. normal_seg x"
  shows "segments (sep # join_sep ns) = ns"
proof (cases "ns = []")
  case True then show ?thesis by (simp add: segments_def)
next
  case False
  have ns: "\<forall>x\<in>set ns. sep \<notin> set x" "\<forall>x\<in>set ns. x \<noteq> []"
    using assms by (simp_all add: normal_seg_def)
  have "split_sep (sep # join_sep ns) = [] # ns"
    using split_sep_append[of "[]" "join_sep ns"] split_join[OF False ns(1)] by simp
  then show ?thesis using ns(2) by (simp add: segments_def filter_id_conv)
qed

lemma drop_common_append: "drop_common xs (xs @ ys) = ([], ys)"
  by (induction xs) simp_all

lemma join_sep_hd:
  assumes "ns \<noteq> []" "\<forall>x\<in>set ns. normal_seg x"
  shows "join_sep ns \<noteq> [] \<and> hd (join_sep ns) \<noteq> sep"
proof -
  obtain n ms where ns: "ns = n # ms" using assms(1) by (cases ns) auto
  then have n: "n \<noteq> []" "sep \<notin> set n" using assms(2) by (simp_all add: normal_seg_def)
  then have "hd n \<noteq> sep" by (cases n) auto
  then show ?thesis using n ns by (cases ms) simp_all
qed

lemma strictly_inside_segments:
  assumes rs: "\<forall>x\<in>set rs. normal_seg x" and ps: "\<forall>x\<in>set ps. normal_seg x"
      and pre: "prefix ((sep # join_sep rs) @ [sep]) (sep # join_sep ps)"
  shows "\<exists>rest. rest \<noteq> [] \<and> ps = rs @ rest"
proof -
  from pre obtain q where q: "join_sep ps = join_sep rs @ sep # q"
    by (auto simp: prefix_def)
  have ps_ne: "ps \<noteq> []" using q by (cases ps) auto
  have nosep: "\<forall>x\<in>set ps. sep \<notin> set x" "\<forall>x\<in>set rs. sep \<notin> set x"
    using rs ps by (simp_all add: normal_seg_def)
  have sp: "ps = split_sep (join_sep rs) @ split_sep q"
    using split_join[OF ps_ne nosep(1)] q by (simp add: split_sep_append)
  have "rs \<noteq> []"
  proof
    assume "rs = []"
    then have "[] \<in> set ps" using sp by simp
    then show False using ps by (auto simp: normal_seg_def)
  qed
  then have "ps = rs @ split_sep q"
    using sp split_join[OF _ nosep(2)] by simp
  then show ?thesis using split_sep_not_Nil by blast
qed

lemma path_resolve_idem:
  assumes cwd: "isAbsolute cwd"
  shows "path_resolve cwd [path_resolve cwd args] = path_resolve cwd args"
proof -
  let ?ns = "resolved_segments cwd args"
  have norm: "\<forall>x\<in>set ?ns. normal_seg x" by (rule resolved_segments_normal)
  then have nosep: "\<forall>x\<in>set ?ns. sep \<notin> set x" by (simp add: normal_seg_def)
  have "split_sep (sep # join_sep ?ns @ [sep]) = [] # split_sep (join_sep ?ns) @ [[]]"
    using split_sep_append[of "[]" "join_sep ?ns @ [sep]"] split_sep_append[of "join_sep ?ns" "[]"]
    by simp
  moreover have "foldl (norm_step False) [] (split_sep (join_sep ?ns)) = rev ?ns"
  proof (cases "?ns = []")
    case True then show ?thesis by (simp add: norm_step_empty)
  next
    case False
    then show ?thesis using split_join[OF False nosep] foldl_norm_step_id[OF norm] by simp
  qed
  ultimately show ?thesis
    using path_resolve_abs[OF cwd, of args]
    by (simp add: path_resolve_def normalizeString_def norm_step_empty)
qed

lemma resolve_loop_shape:
  "fst (resolve_loop ps []) = [] \<or> (\<exists>A. fst (resolve_loop ps []) = A @ [sep])"
proof (induction ps)
  case Nil then show ?case by simp
next
  case (Cons p ps)
  show ?case
  proof (cases "p = []")
    case True then show ?thesis using Cons by simp
  next
    case False
    show ?thesis
    proof (cases "hd p = sep")
      case True then show ?thesis using False by simp
    next
      case nabs: False
      have "resolve_loop (p # ps) [] = resolve_loop ps (p @ [sep])"
        using False nabs by simp
      also have "\<dots> = (fst (resolve_loop ps []) @ p @ [sep], snd (resolve_loop ps []))"
        by (rule resolve_loop_acc)
      finally show ?thesis by (metis append.assoc fst_conv)
    qed
  qed
qed

lemma path_resolve_dot_arg:
  "path_resolve cwd (args @ [''.'']) = path_resolve cwd args"
proof -
  let ?ps = "rev args @ [cwd]"
  obtain F b where Fb: "resolve_loop ?ps [] = (F, b)" by (cases "resolve_loop ?ps []")
  have "resolve_loop (rev (args @ [''.'']) @ [cwd]) [] = resolve_loop ?ps ''./''"
    by (simp add: sep_def)
  also have "\<dots> = (F @ ''./'', b)"
    using resolve_loop_acc[of ?ps "''./''"] Fb by simp
  finally have loop: "resolve_loop (rev (args @ [''.'']) @ [cwd]) [] = (F @ ''./'', b)" .
  have "foldl (norm_step a) [] (split_sep (F @ ''./'')) = foldl (norm_step a) [] (split_sep F)" for a
  proof -
    from resolve_loop_shape[of ?ps] Fb consider "F = []" | A where "F = A @ [sep]" by auto
    then show ?thesis
    proof cases
      case 1 then show ?thesis by (simp add: sep_def norm_step_dot norm_step_empty)
    next
      case 2
      have "split_sep (A @ sep # ''./'') = split_sep A @ [''.'', []]"
        by (simp add: split_sep_append) (simp add: sep_def)
      moreover have "split_sep (A @ [sep]) = split_sep A @ [[]]"
        using split_sep_append[of A "[]"] by simp
      ultimately show ?thesis using 2 by (simp add: norm_step_dot norm_step_empty)
    qed
  qed
  then show ?thesis
    using loop Fb by (simp add: path_resolve_def normalizeString_def)
qed

section \<open>The path sandbox\<close>

subsection \<open>Containment\<close>

lemma resolveSafe_cases:
  "resolveSafe cwd wsroot rel = Inl (Error ''Path outside workspace root is not allowed'')
   \<or> (\<exists>p. resolveSafe cwd wsroot rel = Inr p)"
  by (simp add: resolveSafe_def Let_def)

lemma resolveSafe_contained:
  "resolveSafe cwd wsroot rel = Inr p \<Longrightarrow>
   p = path_resolve cwd [wsroot] \<or> startsWith p (path_resolve cwd [wsroot] @ [sep])"
  by (auto simp: resolveSafe_def Let_def split: if_splits)

lemma resolveSafe_canonical:
  assumes "isAbsolute cwd" "resolveSafe cwd wsroot rel = Inr p"
  shows "path_resolve cwd [p] = p"
proof -
  obtain x where "p = path_resolve cwd [wsroot, x]"
    using assms(2) by (auto simp: resolveSafe_def Let_def split: if_splits)
  then show ?thesis using path_resolve_idem[OF assms(1)] by simp
qed

lemma resolveWorkspacePath_prefix:
  "resolveWorkspacePath cwd wsroot project rel = Inr (projectRoot, resolved) \<Longrightarrow>
   startsWith resolved projectRoot"
  by (auto simp: resolveWorkspacePath_def Let_def split: if_splits)

text \<open>
  C1.  Both resolvers return the containment root or a path that has the root followed
  by a separator as a prefix, or fail.  \<open>resolveSafe\<close> does (\<open>resolveSafe_contained\<close>).
  \<open>resolveWorkspacePath\<close> compares with the project root alone, without the separator:
  in the workspace \<^verbatim>\<open>/ws\<close>, for the project \<^verbatim>\<open>demo\<close> and the candidate
  \<^verbatim>\<open>../demo2/secret\<close>, it returns \<^verbatim>\<open>/ws/demo2/secret\<close>, a path in the sibling directory
  \<^verbatim>\<open>/ws/demo2\<close>, which is neither the project root \<^verbatim>\<open>/ws/demo\<close> nor below it.
\<close>

theorem resolveWorkspacePath_sibling_escape:
  "resolveWorkspacePath ''/srv/app'' ''/ws'' (Some ''demo'') (Some ''../demo2/secret'')
     = Inr (''/ws/demo'', ''/ws/demo2/secret'')
   \<and> ''/ws/demo2/secret'' \<noteq> ''/ws/demo''
   \<and> \<not> startsWith ''/ws/demo2/secret'' (''/ws/demo'' @ [sep])"
  by code_simp

text \<open>
  The project name is cut to its base name, which leaves \<^verbatim>\<open>..\<close> as it is: for that
  project the project root is the parent of the workspace root.
\<close>

lemma resolveWorkspacePath_parent_project:
  "resolveWorkspacePath ''/srv/app'' ''/ws'' (Some ''..'') (Some ''etc/passwd'')
     = Inr (''/'', ''/etc/passwd'')"
  by code_simp

subsection \<open>Leading separators\<close>

lemma resolveSafe_strip:
  assumes "c \<noteq> []"
  shows "resolveSafe cwd wsroot (Some c) = resolveSafe cwd wsroot (Some (dropWhile (\<lambda>x. x = sep) c))"
proof -
  let ?d = "dropWhile (\<lambda>x. x = sep) c"
  have l: "or_default (Some c) ''.'' = c"
    using assms by (simp add: or_default_def)
  have r: "path_resolve cwd [wsroot, dropWhile (\<lambda>x. x = sep) (or_default (Some ?d) ''.'')]
         = path_resolve cwd [wsroot, ?d]"
  proof (cases "?d = []")
    case True
    have "or_default (Some ?d) ''.'' = ''.''"
      unfolding True by (simp add: or_default_def)
    moreover have "dropWhile (\<lambda>x. x = sep) ''.'' = ''.''"
      by (simp add: sep_def)
    moreover have "path_resolve cwd ([wsroot] @ [''.'']) = path_resolve cwd ([wsroot] @ [[]])"
      by (simp only: path_resolve_dot_arg path_resolve_empty_arg)
    ultimately show ?thesis
      unfolding True by simp
  next
    case False
    then have "or_default (Some ?d) ''.'' = ?d"
      by (simp add: or_default_def del: dropWhile_eq_Nil_conv)
    then show ?thesis
      by (simp only: dropWhile_idem)
  qed
  show ?thesis
    unfolding resolveSafe_def Let_def l r ..
qed

text \<open>
  C4, as amended.  Let the candidate \<open>c\<close> begin with a separator.  \<open>resolveSafe\<close>
  strips the leading separators: it resolves \<open>c\<close> exactly as it resolves \<open>c\<close>
  without them, so relative to the workspace root, and a path it returns is the root or
  below it.  \<open>resolveWorkspacePath\<close> strips nothing: it resolves \<open>c\<close> as the absolute
  path it is, whatever the project root, and returns it only if the project root is a
  prefix of it; otherwise it fails with \<^verbatim>\<open>Invalid path (outside project)\<close>.
\<close>

theorem leading_separators:
  assumes "c \<noteq> []" "hd c = sep"
  shows "resolveSafe cwd wsroot (Some c) = resolveSafe cwd wsroot (Some (dropWhile (\<lambda>x. x = sep) c))
       \<and> (\<forall>p. resolveSafe cwd wsroot (Some c) = Inr p \<longrightarrow>
              p = path_resolve cwd [wsroot] \<or> startsWith p (path_resolve cwd [wsroot] @ [sep]))
       \<and> resolveWorkspacePath cwd wsroot (Some (x # xs)) (Some c) =
           (let projectRoot = path_resolve cwd [wsroot, path_basename (x # xs)]
            in if startsWith (path_resolve cwd [c]) projectRoot
               then Inr (projectRoot, path_resolve cwd [c])
               else Inl (Error ''Invalid path (outside project)''))"
proof -
  have "path_resolve cwd ([pr] @ [c]) = path_resolve cwd [c]" for pr
    using assms by (intro path_resolve_absolute_arg) (simp add: isAbsolute_def)
  then have "resolveWorkspacePath cwd wsroot (Some (x # xs)) (Some c) =
           (let projectRoot = path_resolve cwd [wsroot, path_basename (x # xs)]
            in if startsWith (path_resolve cwd [c]) projectRoot
               then Inr (projectRoot, path_resolve cwd [c])
               else Inl (Error ''Invalid path (outside project)''))"
    using assms(1) by (simp add: resolveWorkspacePath_def or_default_def Let_def)
  then show ?thesis
    using resolveSafe_strip[OF assms(1)] resolveSafe_contained by blast
qed

theorem leading_separators_witness:
  "''/etc/passwd'' \<noteq> [] \<and> hd ''/etc/passwd'' = sep
   \<and> resolveSafe ''/srv/app'' ''/ws'' (Some ''/etc/passwd'')
       = resolveSafe ''/srv/app'' ''/ws'' (Some ''etc/passwd'')
   \<and> resolveSafe ''/srv/app'' ''/ws'' (Some ''/etc/passwd'') = Inr ''/ws/etc/passwd''
   \<and> startsWith ''/ws/etc/passwd'' (path_resolve ''/srv/app'' [''/ws''] @ [sep])
   \<and> resolveWorkspacePath ''/srv/app'' ''/ws'' (Some ''demo'') (Some ''/etc/passwd'')
       = Inl (Error ''Invalid path (outside project)'')"
proof -
  have h1: "''/etc/passwd'' \<noteq> []" by simp
  have h2: "hd ''/etc/passwd'' = sep" by (simp add: sep_def)
  have d: "dropWhile (\<lambda>x. x = sep) ''/etc/passwd'' = ''etc/passwd''"
    by (simp add: sep_def)
  have e1: "resolveSafe ''/srv/app'' ''/ws'' (Some ''etc/passwd'') = Inr ''/ws/etc/passwd''"
    by code_simp
  have e2: "startsWith (path_resolve ''/srv/app'' [''/etc/passwd''])
              (path_resolve ''/srv/app'' [''/ws'', path_basename ''demo'']) = False"
    by code_simp
  from leading_separators [OF h1 h2, of "''/srv/app''" "''/ws''" "CHR ''d''" "''emo''"]
  have "resolveSafe ''/srv/app'' ''/ws'' (Some ''/etc/passwd'')
          = resolveSafe ''/srv/app'' ''/ws'' (Some ''etc/passwd'')"
   and "resolveWorkspacePath ''/srv/app'' ''/ws'' (Some ''demo'') (Some ''/etc/passwd'')
          = Inl (Error ''Invalid path (outside project)'')"
    unfolding d Let_def e2 by simp_all
  moreover have "startsWith ''/ws/etc/passwd'' (path_resolve ''/srv/app'' [''/ws''] @ [sep])"
    by code_simp
  ultimately show ?thesis using h1 h2 e1 by simp
qed

text \<open>
  The claim as stated fails for \<open>resolveWorkspacePath\<close>: \<^verbatim>\<open>/etc/passwd\<close> is rejected,
  while the same candidate without its leading separator resolves below the project root.
\<close>

theorem resolveWorkspacePath_keeps_separator:
  "resolveWorkspacePath ''/srv/app'' ''/ws'' (Some ''demo'') (Some ''/etc/passwd'')
     = Inl (Error ''Invalid path (outside project)'')
   \<and> resolveWorkspacePath ''/srv/app'' ''/ws'' (Some ''demo'') (Some ''etc/passwd'')
     = Inr (''/ws/demo'', ''/ws/demo/etc/passwd'')"
  by code_simp

subsection \<open>Round trip through the workspace-relative form\<close>

text \<open>
  C9.  Let \<open>p\<close> be a canonical absolute path (one that \<open>path.resolve\<close> leaves as it
  is, as every path returned by \<open>resolveSafe\<close> is) strictly inside the workspace root:
  the resolved root followed by a separator is a prefix of \<open>p\<close>.  Then resolving the
  workspace-relative path \<open>toRel p\<close> through \<open>resolveSafe\<close> succeeds and gives \<open>p\<close>
  again.
\<close>

theorem toRel_resolveSafe_roundtrip:
  assumes cwd: "isAbsolute cwd"
      and canonical: "path_resolve cwd [p] = p"
      and inside: "startsWith p (path_resolve cwd [wsroot] @ [sep])"
  shows "resolveSafe cwd wsroot (Some (toRel cwd wsroot p)) = Inr p"
proof -
  let ?rs = "resolved_segments cwd [wsroot]" and ?ps = "resolved_segments cwd [p]"
  have R: "path_resolve cwd [wsroot] = sep # join_sep ?rs"
    and P: "p = sep # join_sep ?ps"
    using path_resolve_abs[OF cwd] canonical by simp_all
  have norm: "\<forall>x\<in>set ?rs. normal_seg x" "\<forall>x\<in>set ?ps. normal_seg x"
    by (rule resolved_segments_normal)+
  have "prefix ((sep # join_sep ?rs) @ [sep]) (sep # join_sep ?ps)"
    using inside R P by (simp add: startsWith_def)
  then obtain rest where rest: "rest \<noteq> []" "?ps = ?rs @ rest"
    using strictly_inside_segments[OF norm] by blast
  have rest_norm: "\<forall>x\<in>set rest. normal_seg x"
    using norm(2) rest(2) by simp
  have neq: "path_resolve cwd [wsroot] \<noteq> p"
    using inside by (auto simp: startsWith_def prefix_def)
  then have "wsroot \<noteq> p" using canonical by auto
  moreover have "drop_common (segments (path_resolve cwd [wsroot])) (segments p) = ([], rest)"
    using segments_abs[OF norm(1)] segments_abs[OF norm(2)] R P rest(2)
    by (simp add: drop_common_append)
  ultimately have rel: "path_relative cwd wsroot p = join_sep rest"
    using neq canonical by (simp add: path_relative_def)
  have hd_rest: "join_sep rest \<noteq> []" "hd (join_sep rest) \<noteq> sep"
    using join_sep_hd[OF rest(1) rest_norm] by simp_all
  have "map (\<lambda>c. if c = sep then CHR ''/'' else c) (join_sep rest) = join_sep rest"
    by (simp add: sep_def map_idI)
  then have toRel: "toRel cwd wsroot p = join_sep rest"
    using rel hd_rest(1) by (simp add: toRel_def)
  have strip: "dropWhile (\<lambda>c. c = sep) (join_sep rest) = join_sep rest"
    using hd_rest by (cases "join_sep rest") simp_all
  have nosep: "\<forall>x\<in>set rest. sep \<notin> set x"
    using rest_norm by (simp add: normal_seg_def)
  have "path_resolve cwd ([wsroot] @ [join_sep rest]) =
        sep # join_sep (rev (foldl (norm_step False) (rev ?rs) (split_sep (join_sep rest))))"
    using cwd hd_rest by (rule path_resolve_snoc)
  also have "\<dots> = sep # join_sep (?rs @ rest)"
    using split_join[OF rest(1) nosep] foldl_norm_step_id[OF rest_norm] by simp
  also have "\<dots> = p" using P rest(2) by simp
  finally have res: "path_resolve cwd [wsroot, join_sep rest] = p" by simp
  show ?thesis
    using res inside hd_rest(1) strip
    by (simp add: resolveSafe_def toRel or_default_def Let_def)
qed

theorem toRel_resolveSafe_roundtrip_witness:
  "isAbsolute ''/'' \<and> path_resolve ''/'' [''/ws/a/b''] = ''/ws/a/b''
   \<and> startsWith ''/ws/a/b'' (path_resolve ''/'' [''/ws''] @ [sep])
   \<and> resolveSafe ''/'' ''/ws'' (Some (toRel ''/'' ''/ws'' ''/ws/a/b'')) = Inr ''/ws/a/b''"
proof -
  have h1: "isAbsolute ''/''"
    by (simp add: isAbsolute_def sep_def)
  have h2: "path_resolve ''/'' [''/ws/a/b''] = ''/ws/a/b''"
    by (simp add: path_resolve_def normalizeString_def norm_step_def sep_def)
  have h3: "startsWith ''/ws/a/b'' (path_resolve ''/'' [''/ws''] @ [sep])"
    by (simp add: startsWith_def path_resolve_def normalizeString_def norm_step_def sep_def)
  from toRel_resolveSafe_roundtrip [OF h1 h2 h3] h1 h2 h3 show ?thesis
    by blast
qed

section \<open>Inbound messages\<close>

lemma to_binary64_examples:
  "to_binary64 120 = Finite 120"
  "to_binary64 (1 / 10) = Finite (3602879701896397 / 36028797018963968)"
  by code_simp+

lemma get_prop_resize_obj:
  "get_prop v ''type'' = Inr (JStr ''resize'') \<Longrightarrow> \<exists>ms. v = JObj ms"
  by (cases v) simp_all

lemma ws_on_message_forwards:
  assumes "JSON_parse E msg = Inl e
           \<or> (\<exists>v. JSON_parse E msg = Inr v \<and> get_prop v ''type'' \<noteq> Inr (JStr ''resize''))"
  shows "ws_on_message E (w, p) msg = Inr (w, pty_write p msg)"
  using assms
  by (auto simp: ws_on_message_def Let_def split: sum.splits option.splits)

lemma ws_on_message_server_parse_error:
  "JSON_parse E msg = Inl e \<Longrightarrow> ws_on_message_server E (w, p) msg = Inr (w, pty_write p msg)"
  by (simp add: ws_on_message_server_def)

lemma ws_on_message_server_not_resize:
  "JSON_parse E msg = Inr v \<Longrightarrow> get_prop v ''type'' = Inr t \<Longrightarrow> t \<noteq> JStr ''resize'' \<Longrightarrow>
   ws_on_message_server E (w, p) msg = Inr (w, p)"
  by (simp add: ws_on_message_server_def)

text \<open>
  C2.  A message that is not a resize control message is written to the shell as it is.
  The later revisions do so (\<open>ws_on_message_forwards\<close>).  \<^verbatim>\<open>server.js\<close> writes only in
  its \<^verbatim>\<open>catch\<close> block: a message that is valid JSON and not a resize message, such as
  the key stroke \<^verbatim>\<open>1\<close>, reaches neither the resize nor the write and is dropped.
\<close>

theorem server_js_drops_json_input:
  "ws_on_message_server posix_env (open_ws, demo_pty) ''1'' = Inr (open_ws, demo_pty)
   \<and> ws_on_message posix_env (open_ws, demo_pty) ''1'' = Inr (open_ws, pty_write demo_pty ''1'')"
  by code_simp

subsection \<open>Resize messages\<close>

text \<open>
  Let a message parse to a value whose \<^verbatim>\<open>type\<close> is the string \<^verbatim>\<open>resize\<close>; the value is
  then an object, and \<open>c\<close> and \<open>r\<close> are its \<^verbatim>\<open>cols\<close> and \<^verbatim>\<open>rows\<close> (\<^verbatim>\<open>undefined\<close> when
  absent).  The later revisions call the resize with \<^verbatim>\<open>c || 80\<close> and \<^verbatim>\<open>r || 24\<close>,
  \<^verbatim>\<open>server.js\<close> with \<open>c\<close> and \<open>r\<close>.  When the call returns, the dimensions are the
  values passed and nothing is written to the shell.  When it throws, the exception is
  caught by the \<^verbatim>\<open>catch\<close> block that is there for a message that is not JSON, and the
  message is written to the shell.
\<close>

lemma ws_on_message_resize_returns:
  assumes "JSON_parse E msg = Inr v"
      and "get_prop v ''type'' = Inr (JStr ''resize'')"
      and "get_prop v ''cols'' = Inr c" "get_prop v ''rows'' = Inr r"
      and "\<not> pty_resize_throws E (js_or c (JNum (Finite 80))) (js_or r (JNum (Finite 24)))"
  shows "ws_on_message E (w, p) msg =
           Inr (w, p\<lparr>pty_dims := (js_or c (JNum (Finite 80)), js_or r (JNum (Finite 24)))\<rparr>)"
proof -
  obtain ms where "v = JObj ms" using get_prop_resize_obj[OF assms(2)] by blast
  then show ?thesis using assms by (simp add: ws_on_message_def pty_resize_def)
qed

lemma ws_on_message_resize_throws:
  assumes "JSON_parse E msg = Inr v"
      and "get_prop v ''type'' = Inr (JStr ''resize'')"
      and "get_prop v ''cols'' = Inr c" "get_prop v ''rows'' = Inr r"
      and "pty_resize_throws E (js_or c (JNum (Finite 80))) (js_or r (JNum (Finite 24)))"
  shows "ws_on_message E (w, p) msg = Inr (w, pty_write p msg)"
proof -
  obtain ms where "v = JObj ms" using get_prop_resize_obj[OF assms(2)] by blast
  then show ?thesis using assms by (simp add: ws_on_message_def pty_resize_def)
qed

lemma ws_on_message_server_resize:
  assumes "JSON_parse E msg = Inr v"
      and "get_prop v ''type'' = Inr (JStr ''resize'')"
      and "get_prop v ''cols'' = Inr c" "get_prop v ''rows'' = Inr r"
  shows "ws_on_message_server E (w, p) msg =
           Inr (w, if pty_resize_throws E c r then pty_write p msg else p\<lparr>pty_dims := (c, r)\<rparr>)"
  using assms by (simp add: ws_on_message_server_def pty_resize_def)

lemma js_or_default:
  "js_or JUndefined d = d" "js_or JNull d = d" "js_or (JBool False) d = d"
  "js_or (JNum (Finite 0)) d = d" "js_or (JStr []) d = d"
  "truthy v \<Longrightarrow> js_or v d = v"
  by (simp_all add: js_or_def)

lemma node_pty_resize_returns:
  "\<not> node_pty_resize_throws c r \<longleftrightarrow> (\<exists>a b. c = JNum (Finite a) \<and> r = JNum (Finite b) \<and> 0 < a \<and> 0 < b)"
proof -
  have "positive_number v \<longleftrightarrow> (\<exists>a. v = JNum (Finite a) \<and> 0 < a)" for v
    by (cases v rule: positive_number.cases) simp_all
  then show ?thesis by (auto simp: node_pty_resize_throws_def)
qed

text \<open>
  C5.  A resize message sets the dimensions to its \<^verbatim>\<open>cols\<close> and \<^verbatim>\<open>rows\<close>, with 80 and 24
  for a field that is absent or not a number, and is never written to the shell.  The
  later revisions put the defaults only in place of a falsy field: \<^verbatim>\<open>"abc" || 80\<close> is
  \<^verbatim>\<open>"abc"\<close>, the resize of \<^verbatim>\<open>node-pty\<close> throws on it, the exception is caught by the
  block meant for a message that is not JSON, and the resize message itself is written
  to the shell as input, the dimensions still 80 by 24.  \<^verbatim>\<open>server.js\<close> has no defaults
  at all: a resize message without \<^verbatim>\<open>cols\<close> and \<^verbatim>\<open>rows\<close> goes the same way there.
\<close>

theorem resize_frame_forwarded:
  "ws_on_message posix_env (open_ws, demo_pty) bad_resize_frame
     = Inr (open_ws, demo_pty\<lparr>pty_input := [bad_resize_frame]\<rparr>)
   \<and> ws_on_message_server posix_env (open_ws, demo_pty) bad_resize_frame
     = Inr (open_ws, demo_pty\<lparr>pty_input := [bad_resize_frame]\<rparr>)
   \<and> ws_on_message_server posix_env (open_ws, demo_pty) bare_resize_frame
     = Inr (open_ws, demo_pty\<lparr>pty_input := [bare_resize_frame]\<rparr>)
   \<and> pty_dims (demo_pty\<lparr>pty_input := [bad_resize_frame]\<rparr>) = (JNum (Finite 80), JNum (Finite 24))"
  by code_simp

section \<open>Output of the process\<close>

lemma pty_onData_result:
  "pty_onData E (w, p) d = Inr (if ws_open w then w\<lparr>ws_sent := ws_sent w @ [d]\<rparr> else w, p)"
  by (simp add: pty_onData_def ws_send_def)

lemma pty_onData_server_result:
  "pty_onData_server E (w, p) d = Inr (if ws_open w then w\<lparr>ws_sent := ws_sent w @ [d]\<rparr> else w, p)"
  by (simp add: pty_onData_server_def ws_send_def)

lemma deliver_PtyData:
  "deliver rv E (PtyData d) (w, p) = Inr (if ws_open w then w\<lparr>ws_sent := ws_sent w @ [d]\<rparr> else w, p)"
  by (simp add: deliver_def pty_onData_result pty_onData_server_result)

lemma run_PtyData:
  "run rv E (map PtyData ds) (w, p) = Inr (if ws_open w then w\<lparr>ws_sent := ws_sent w @ ds\<rparr> else w, p)"
proof (induction ds arbitrary: w)
  case Nil then show ?case by simp
next
  case (Cons d ds)
  show ?case
  proof (cases "ws_open w")
    case True
    let ?w = "w\<lparr>ws_sent := ws_sent w @ [d]\<rparr>"
    have "run rv E (map PtyData (d # ds)) (w, p) = run rv E (map PtyData ds) (?w, p)"
      using True by (simp add: deliver_PtyData)
    also have "\<dots> = Inr (?w\<lparr>ws_sent := ws_sent ?w @ ds\<rparr>, p)"
      using True by (simp add: Cons.IH)
    finally show ?thesis using True by simp
  next
    case False
    have "run rv E (map PtyData (d # ds)) (w, p) = run rv E (map PtyData ds) (w, p)"
      using False by (simp add: deliver_PtyData)
    then show ?thesis using False by (simp add: Cons.IH)
  qed
qed

text \<open>
  C7.  In every revision a chunk of output is sent on the connection as it is, and the
  chunks in the order in which the process wrote them; when the connection is closed,
  the listener sends nothing, changes nothing and returns without an exception.
\<close>

theorem output_forwarded:
  "deliver rv E (PtyData d) (w, p)
     = Inr (if ws_open w then w\<lparr>ws_sent := ws_sent w @ [d]\<rparr> else w, p)
   \<and> run rv E (map PtyData ds) (w, p)
     = Inr (if ws_open w then w\<lparr>ws_sent := ws_sent w @ ds\<rparr> else w, p)"
  by (simp only: deliver_PtyData run_PtyData)

theorem output_forwarded_witness:
  "run ServerJs posix_env (map PtyData [''a'', ''b'', ''c'']) (open_ws, demo_pty)
     = Inr (open_ws\<lparr>ws_sent := [''a'', ''b'', ''c'']\<rparr>, demo_pty)
   \<and> deliver ServerJs posix_env (PtyData ''a'') (ws_close open_ws, demo_pty)
     = Inr (ws_close open_ws, demo_pty)
   \<and> run ProjectScoped posix_env (map PtyData [''a'', ''b'', ''c'']) (ws_close open_ws, demo_pty)
     = Inr (ws_close open_ws, demo_pty)"
proof -
  have o: "ws_open open_ws" "\<not> ws_open (ws_close open_ws)" "ws_sent open_ws = []"
    by (simp_all add: open_ws_def ws_close_def)
  from output_forwarded [of ServerJs posix_env "''a''" open_ws demo_pty "[''a'', ''b'', ''c'']"]
  have a: "run ServerJs posix_env (map PtyData [''a'', ''b'', ''c'']) (open_ws, demo_pty)
     = Inr (open_ws\<lparr>ws_sent := [''a'', ''b'', ''c'']\<rparr>, demo_pty)"
    by (simp only: o if_True append_Nil)
  from output_forwarded [of ServerJs posix_env "''a''" "ws_close open_ws" demo_pty "[]"]
  have b: "deliver ServerJs posix_env (PtyData ''a'') (ws_close open_ws, demo_pty)
     = Inr (ws_close open_ws, demo_pty)"
    by (simp only: o if_False)
  from output_forwarded [of ProjectScoped posix_env "''a''" "ws_close open_ws" demo_pty "[''a'', ''b'', ''c'']"]
  have c: "run ProjectScoped posix_env (map PtyData [''a'', ''b'', ''c'']) (ws_close open_ws, demo_pty)
     = Inr (ws_close open_ws, demo_pty)"
    by (simp only: o if_False)
  from a b c show ?thesis by blast
qed

section \<open>End of a session\<close>

lemma deliver_keeps_open:
  assumes "ev \<noteq> WsClose" "deliver rv E ev (w, p) = Inr (w', p')"
  shows "ws_open w' = ws_open w"
proof (cases ev)
  case (PtyData d)
  then show ?thesis using assms(2)
    by (auto simp: deliver_def pty_onData_def pty_onData_server_def ws_send_def split: if_splits)
next
  case PtyExit
  then show ?thesis using assms(2) by (auto simp: deliver_def)
next
  case (WsMessage m)
  then show ?thesis using assms(2)
    by (auto simp: deliver_def ws_on_message_def ws_on_message_server_def Let_def
             split: if_splits sum.splits option.splits)
next
  case WsClose
  then show ?thesis using assms(1) by simp
qed

text \<open>
  C3, as amended.  No revision reacts to the exit of the shell process: the session
  never closes the connection.  Through any sequence of output chunks, process exits and
  inbound messages, the connection stays as open as it was; only the client closes it.
\<close>

theorem session_never_closes_connection:
  assumes "WsClose \<notin> set evs" "run rv E evs (w, p) = Inr (w', p')"
  shows "ws_open w' = ws_open w"
  using assms
proof (induction evs arbitrary: w p)
  case Nil then show ?case by simp
next
  case (Cons ev evs)
  from Cons.prems(2) obtain w1 p1 where
    step: "deliver rv E ev (w, p) = Inr (w1, p1)" and rest: "run rv E evs (w1, p1) = Inr (w', p')"
    by (auto split: sum.splits)
  have "ws_open w1 = ws_open w"
    using Cons.prems(1) step by (intro deliver_keeps_open[of ev]) auto
  moreover have "ws_open w' = ws_open w1"
    using Cons.prems(1) rest by (intro Cons.IH) auto
  ultimately show ?case by simp
qed

theorem session_never_closes_connection_witness:
  "WsClose \<notin> set [PtyData ''bye'', PtyExit, WsMessage ''ls'']
   \<and> run ProjectScoped posix_env [PtyData ''bye'', PtyExit, WsMessage ''ls''] (open_ws, demo_pty)
       = Inr (open_ws\<lparr>ws_sent := [''bye'']\<rparr>, demo_pty\<lparr>pty_input := [''ls''], pty_exited := True\<rparr>)
   \<and> ws_open (open_ws\<lparr>ws_sent := [''bye'']\<rparr>) = ws_open open_ws"
proof -
  have h1: "WsClose \<notin> set [PtyData ''bye'', PtyExit, WsMessage ''ls'']" by simp
  have h2: "run ProjectScoped posix_env [PtyData ''bye'', PtyExit, WsMessage ''ls''] (open_ws, demo_pty)
       = Inr (open_ws\<lparr>ws_sent := [''bye'']\<rparr>, demo_pty\<lparr>pty_input := [''ls''], pty_exited := True\<rparr>)"
    by code_simp
  from session_never_closes_connection [OF h1 h2] h1 h2 show ?thesis by blast
qed

text \<open>
  The claim as stated fails in every revision: after the last output and the exit of
  the process the connection is still open, and nothing was sent but the output.
\<close>

theorem exit_leaves_connection_open:
  "run ServerJs posix_env [PtyData ''bye'', PtyExit] (open_ws, demo_pty)
     = Inr (open_ws\<lparr>ws_sent := [''bye'']\<rparr>, demo_pty\<lparr>pty_exited := True\<rparr>)
   \<and> run SingleWorkspace posix_env [PtyData ''bye'', PtyExit] (open_ws, demo_pty)
     = Inr (open_ws\<lparr>ws_sent := [''bye'']\<rparr>, demo_pty\<lparr>pty_exited := True\<rparr>)
   \<and> run ProjectScoped posix_env [PtyData ''bye'', PtyExit] (open_ws, demo_pty)
     = Inr (open_ws\<lparr>ws_sent := [''bye'']\<rparr>, demo_pty\<lparr>pty_exited := True\<rparr>)
   \<and> ws_open (open_ws\<lparr>ws_sent := [''bye'']\<rparr>)"
  by code_simp

subsection \<open>Closing the connection\<close>

lemma wss_connection_tracked:
  assumes "wss_connection rv E k query S = Inr S'"
  shows "k \<in> wss_clients S'
         \<and> (\<exists>r. on_connection rv E \<lparr>ws_open = True, ws_sent = []\<rparr> query = Inr r
                  \<and> conn_state S' k = Some r)"
  using assms by (auto simp: wss_connection_def split: sum.splits)

lemma wss_connection_demo:
  "wss_connection ProjectScoped posix_env 1 (\<lambda>k. Some ''demo'')
     \<lparr>wss_clients = {}, conn_state = Map.empty\<rparr> = Inr demo_server"
proof -
  have "on_connection ProjectScoped posix_env \<lparr>ws_open = True, ws_sent = []\<rparr> (\<lambda>k. Some ''demo'')
          = Inr (open_ws, Some demo_pty)"
    by code_simp
  then show ?thesis by (simp add: wss_connection_def demo_server_def)
qed

lemma deliver_WsClose:
  "deliver rv E WsClose (w, p) = Inr (ws_close w, p\<lparr>pty_signals := pty_signals p + 1\<rparr>)"
  by (simp add: deliver_def ws_on_close_def ws_on_close_server_def pty_kill_def)

text \<open>
  C6.  When the connection \<open>k\<close> of a session closes, in every revision the listener
  returns without an exception, the process of the session has been sent exactly one
  more termination signal, and the connection is no longer among the connections that
  the server tracks.
\<close>

theorem close_kills_once:
  assumes "conn_state S k = Some (w, Some p)"
  shows "wss_close rv E k S =
           Inr (S\<lparr>wss_clients := wss_clients S - {k},
                  conn_state := (conn_state S)(k \<mapsto>
                    (ws_close w, Some (p\<lparr>pty_signals := pty_signals p + 1\<rparr>)))\<rparr>)
         \<and> k \<notin> wss_clients S - {k}
         \<and> deliver rv E WsClose (w, p) = Inr (ws_close w, p\<lparr>pty_signals := pty_signals p + 1\<rparr>)"
  using assms by (simp add: wss_close_def deliver_WsClose)

theorem close_kills_once_witness:
  "conn_state demo_server 1 = Some (open_ws, Some demo_pty)
   \<and> wss_close ServerJs posix_env 1 demo_server =
       Inr (demo_server\<lparr>wss_clients := wss_clients demo_server - {1},
              conn_state := (conn_state demo_server)(1 \<mapsto>
                (ws_close open_ws, Some (demo_pty\<lparr>pty_signals := pty_signals demo_pty + 1\<rparr>)))\<rparr>)
   \<and> wss_clients demo_server - {1} = {}
   \<and> pty_signals (demo_pty\<lparr>pty_signals := pty_signals demo_pty + 1\<rparr>) = 1"
proof -
  have h: "conn_state demo_server 1 = Some (open_ws, Some demo_pty)"
    by (simp add: demo_server_def)
  have c: "wss_clients demo_server - {1} = {}"
    by (simp add: demo_server_def)
  have n: "pty_signals (demo_pty\<lparr>pty_signals := pty_signals demo_pty + 1\<rparr>) = 1"
    by (simp add: demo_pty_def)
  from close_kills_once [OF h, of ServerJs posix_env] show ?thesis
    using h c n by blast
qed

section \<open>The connection acceptor\<close>

text \<open>
  C8.  When the requested project or path does not exist, the acceptor of every
  revision sends one frame, the text saying which project or path was not found, closes
  the connection, and spawns no process.
\<close>

theorem missing_target_refused:
  assumes "ws_open w"
  shows "(\<not> fs_existsSync E (path_join [env_root E, path_basename (or_default (query ''project'') ''default'')]) \<longrightarrow>
            on_connection ServerJs E w query =
              Inr (w\<lparr>ws_sent := ws_sent w @ [''Project '' @ [CHR 0x27] @ or_default (query ''project'') ''default'' @ [CHR 0x27] @ '' not found.''],
                     ws_open := False\<rparr>, None)
          \<and> on_connection ProjectScoped E w query =
              Inr (w\<lparr>ws_sent := ws_sent w @ [''Project '' @ [CHR 0x27] @ or_default (query ''project'') ''default'' @ [CHR 0x27] @ '' not found.''],
                     ws_open := False\<rparr>, None))
       \<and> (\<forall>dir. resolveSafe (env_cwd E) (env_root E) (Some (or_default (query ''path'') ''.'')) = Inr dir
                 \<and> \<not> fs_existsSync E dir \<longrightarrow>
            on_connection SingleWorkspace E w query =
              Inr (w\<lparr>ws_sent := ws_sent w @ [''Path '' @ [CHR 0x27] @ or_default (query ''path'') ''.'' @ [CHR 0x27] @ '' not found.''],
                     ws_open := False\<rparr>, None))"
  using assms
  by (simp add: on_connection_def wss_on_connection_server_def wss_on_connection_project_def
        wss_on_connection_single_def ws_send_def ws_close_def Let_def)

theorem missing_target_refused_witness:
  "ws_open open_ws
   \<and> \<not> fs_existsSync posix_env (path_join [env_root posix_env, path_basename (or_default (Some ''nope'') ''default'')])
   \<and> on_connection ServerJs posix_env open_ws (\<lambda>k. Some ''nope'')
       = Inr (\<lparr>ws_open = False, ws_sent = [''Project '' @ [CHR 0x27] @ ''nope'' @ [CHR 0x27] @ '' not found.'']\<rparr>, None)
   \<and> on_connection ProjectScoped posix_env open_ws (\<lambda>k. Some ''nope'')
       = Inr (\<lparr>ws_open = False, ws_sent = [''Project '' @ [CHR 0x27] @ ''nope'' @ [CHR 0x27] @ '' not found.'']\<rparr>, None)
   \<and> resolveSafe (env_cwd posix_env) (env_root posix_env) (Some (or_default (Some ''nope'') ''.'')) = Inr ''/ws/nope''
   \<and> \<not> fs_existsSync posix_env ''/ws/nope''
   \<and> on_connection SingleWorkspace posix_env open_ws (\<lambda>k. Some ''nope'')
       = Inr (\<lparr>ws_open = False, ws_sent = [''Path '' @ [CHR 0x27] @ ''nope'' @ [CHR 0x27] @ '' not found.'']\<rparr>, None)"
proof -
  have h0: "ws_open open_ws" by (simp add: open_ws_def)
  have h1: "\<not> fs_existsSync posix_env (path_join [env_root posix_env, path_basename (or_default (Some ''nope'') ''default'')])"
    by code_simp
  have h2: "resolveSafe (env_cwd posix_env) (env_root posix_env) (Some (or_default (Some ''nope'') ''.'')) = Inr ''/ws/nope''"
    by code_simp
  have h3: "\<not> fs_existsSync posix_env ''/ws/nope''"
    by code_simp
  have d: "or_default (Some ''nope'') d = ''nope''" for d by (simp add: or_default_def)
  have w: "open_ws\<lparr>ws_sent := ws_sent open_ws @ [x], ws_open := False\<rparr> = \<lparr>ws_open = False, ws_sent = [x]\<rparr>" for x
    by (simp add: open_ws_def)
  from missing_target_refused [OF h0, of posix_env "\<lambda>k. Some ''nope''"]
  show ?thesis using h0 h1 h2 h3 unfolding d w by blast
qed

lemma on_connection_spawned:
  assumes "on_connection rv E w query = Inr (w', Some p)"
  shows "opt_cols (pty_options p) = 80 \<and> opt_rows (pty_options p) = 24
         \<and> pty_dims p = (JNum (Finite 80), JNum (Finite 24))"
proof (cases rv)
  case ServerJs
  then show ?thesis using assms
    by (auto simp: on_connection_def wss_on_connection_server_def pty_spawn_def Let_def
             split: if_splits sum.splits)
next
  case SingleWorkspace
  then show ?thesis using assms
    by (auto simp: on_connection_def wss_on_connection_single_def pty_spawn_def Let_def
             split: if_splits sum.splits)
next
  case ProjectScoped
  then show ?thesis using assms
    by (auto simp: on_connection_def wss_on_connection_project_def pty_spawn_def Let_def
             split: if_splits sum.splits)
qed

lemma ws_on_message_dims:
  assumes "ws_on_message E (w, p) m = Inr (w', p')" "pty_dims p' \<noteq> pty_dims p"
  shows "\<exists>v. JSON_parse E m = Inr v \<and> get_prop v ''type'' = Inr (JStr ''resize'')"
proof (cases "JSON_parse E m")
  case (Inl e)
  then show ?thesis using assms by (auto simp: ws_on_message_def pty_write_def)
next
  case (Inr v)
  show ?thesis
  proof (cases "get_prop v ''type'' = Inr (JStr ''resize'')")
    case True then show ?thesis using Inr by simp
  next
    case False
    have "ws_on_message E (w, p) m = Inr (w, pty_write p m)"
      using Inr False by (intro ws_on_message_forwards) simp
    then show ?thesis using assms by (auto simp: pty_write_def)
  qed
qed

lemma ws_on_message_server_dims:
  assumes "ws_on_message_server E (w, p) m = Inr (w', p')" "pty_dims p' \<noteq> pty_dims p"
  shows "\<exists>v. JSON_parse E m = Inr v \<and> get_prop v ''type'' = Inr (JStr ''resize'')"
proof (cases "JSON_parse E m")
  case (Inl e)
  then show ?thesis using assms by (auto simp: ws_on_message_server_def pty_write_def)
next
  case (Inr v)
  show ?thesis
  proof (cases "get_prop v ''type''")
    case (Inl e)
    then show ?thesis using Inr assms by (auto simp: ws_on_message_server_def pty_write_def)
  next
    case t: (Inr t)
    show ?thesis
    proof (cases "t = JStr ''resize''")
      case True then show ?thesis using Inr t by simp
    next
      case False
      then show ?thesis using Inr t assms by (auto simp: ws_on_message_server_def)
    qed
  qed
qed

lemma deliver_dims:
  assumes "deliver rv E ev (w, p) = Inr (w', p')" "pty_dims p' \<noteq> pty_dims p"
  shows "\<exists>m v. ev = WsMessage m \<and> JSON_parse E m = Inr v
               \<and> get_prop v ''type'' = Inr (JStr ''resize'')"
proof (cases ev)
  case (PtyData d)
  then show ?thesis using assms
    by (auto simp: deliver_def pty_onData_def pty_onData_server_def split: if_splits sum.splits)
next
  case PtyExit
  then show ?thesis using assms by (auto simp: deliver_def)
next
  case (WsMessage m)
  then show ?thesis
    using assms ws_on_message_dims[of E w p m w' p'] ws_on_message_server_dims[of E w p m w' p']
    by (auto simp: deliver_def split: if_splits)
next
  case WsClose
  then show ?thesis using assms
    by (auto simp: deliver_WsClose)
qed

text \<open>
  C10.  In every revision a process is spawned with 80 columns and 24 rows, whatever
  the connection asks for; and when an event changes the dimensions of a session, the
  event is a message that parses to a value whose \<^verbatim>\<open>type\<close> is \<^verbatim>\<open>resize\<close>.
\<close>

theorem initial_dimensions_fixed:
  "(on_connection rv E w query = Inr (w', Some p) \<longrightarrow>
      opt_cols (pty_options p) = 80 \<and> opt_rows (pty_options p) = 24
      \<and> pty_dims p = (JNum (Finite 80), JNum (Finite 24)))
   \<and> (deliver rv E ev (w1, p1) = Inr (w2, p2) \<and> pty_dims p2 \<noteq> pty_dims p1 \<longrightarrow>
        (\<exists>m v. ev = WsMessage m \<and> JSON_parse E m = Inr v
               \<and> get_prop v ''type'' = Inr (JStr ''resize'')))"
  using on_connection_spawned deliver_dims by blast

theorem initial_dimensions_fixed_witness:
  "on_connection ProjectScoped posix_env open_ws (\<lambda>k. Some ''demo'') = Inr (open_ws, Some demo_pty)
   \<and> opt_cols (pty_options demo_pty) = 80 \<and> opt_rows (pty_options demo_pty) = 24
   \<and> pty_dims demo_pty = (JNum (Finite 80), JNum (Finite 24))
   \<and> deliver ProjectScoped posix_env (WsMessage resize_frame) (open_ws, demo_pty)
       = Inr (open_ws, demo_pty\<lparr>pty_dims := (JNum (Finite 120), JNum (Finite 40))\<rparr>)
   \<and> pty_dims (demo_pty\<lparr>pty_dims := (JNum (Finite 120), JNum (Finite 40))\<rparr>) \<noteq> pty_dims demo_pty
   \<and> get_prop (JObj [(''type'', JStr ''resize''), (''cols'', JNum (Finite 120)), (''rows'', JNum (Finite 40))]) ''type''
       = Inr (JStr ''resize'')"
proof -
  have h1: "on_connection ProjectScoped posix_env open_ws (\<lambda>k. Some ''demo'') = Inr (open_ws, Some demo_pty)"
    by code_simp
  have h2: "deliver ProjectScoped posix_env (WsMessage resize_frame) (open_ws, demo_pty)
       = Inr (open_ws, demo_pty\<lparr>pty_dims := (JNum (Finite 120), JNum (Finite 40))\<rparr>)"
    by code_simp
  have h3: "pty_dims (demo_pty\<lparr>pty_dims := (JNum (Finite 120), JNum (Finite 40))\<rparr>) \<noteq> pty_dims demo_pty"
    by (simp add: demo_pty_def)
  from initial_dimensions_fixed [of ProjectScoped posix_env open_ws "\<lambda>k. Some ''demo''" open_ws demo_pty
         "WsMessage resize_frame" open_ws demo_pty open_ws
         "demo_pty\<lparr>pty_dims := (JNum (Finite 120), JNum (Finite 40))\<rparr>"]
  have "opt_cols (pty_options demo_pty) = 80 \<and> opt_rows (pty_options demo_pty) = 24
        \<and> pty_dims demo_pty = (JNum (Finite 80), JNum (Finite 24))"
    using h1 by blast
  then show ?thesis using h1 h2 h3 by simp
qed

end
